theory Spec2Isabelle
  imports Main
begin

section \<open>Events and errors (package eventsourcing)\<close>

text \<open>
  \<^verbatim>\<open>Version\<close> is an unsigned integer counter in the sources; every value computed in the
  modelled paths is a slice length plus one or a stored number plus one, so it is modelled
  as a natural number. \<^verbatim>\<open>time.Time\<close> is an instant, \<^verbatim>\<open>[]byte\<close> a byte string whose
  \<^verbatim>\<open>nil\<close> value is \<open>None\<close> where the sources test for it.
\<close>

type_synonym Version = nat
type_synonym Time = int
type_synonym bytes = string

text \<open>
  The sentinel errors of the sources, the validation errors the specification names, and
  the failures of the collaborators (serializer, database client), which are passed on
  unchanged. \<open>ErrWrapped msg err\<close> is \<^verbatim>\<open>errors.New(fmt.Sprintf(msg + "%v", err))\<close>.
  \<open>Panic\<close> is not an error value: it stands for a run-time panic of the call.
\<close>

datatype error =
    ErrEmptyID
  | ErrUnsavedEvents
  | ErrNoEvents
  | ErrNoMoreEvents
  | ErrNotAnAggregate
  | ErrMixedAggregate
  | ErrNonContiguousVersion
  | ErrConcurrencyConflict
  | ErrOther string
  | ErrWrapped string error
  | Panic string

text \<open>\<^verbatim>\<open>type Event[T any] struct\<close>; \<open>'d\<close> is the payload type \<^verbatim>\<open>T\<close>, \<open>'v\<close> the values of the
  metadata map (\<^verbatim>\<open>map[string]interface{}\<close>, \<open>None\<close> when the map is \<^verbatim>\<open>nil\<close>).\<close>

record ('d, 'v) Event =
  AggregateID :: string
  Version :: Version
  GlobalVersion :: Version
  AggregateType :: string
  Timestamp :: Time
  Data :: 'd
  Metadata :: "(string \<rightharpoonup> 'v) option"

section \<open>Validation of a batch (package eventstore)\<close>

fun contiguous :: "nat list \<Rightarrow> bool" where
  "contiguous (a # b # xs) = (b = a + 1 \<and> contiguous (b # xs))"
| "contiguous _ = True"

definition same_aggregate :: "string \<Rightarrow> ('d, 'v) Event list \<Rightarrow> bool" where
  "same_aggregate aggregateID events =
     (case events of
        [] \<Rightarrow> True
      | first # _ \<Rightarrow>
          list_all (\<lambda>event. AggregateID event = aggregateID
                        \<and> AggregateType event = AggregateType first) events)"

text \<open>
  Modelled from the spec: \<^verbatim>\<open>eventstore.ValidateEventsNoVersionCheck\<close> is called by the
  esdb backend and is not among the sources. Section 4.2: all events of a batch share one
  AggregateID and one AggregateType, else the batch fails with a MixedAggregate error;
  the Versions are contiguous ascending integers with no gaps.
\<close>

definition ValidateEventsNoVersionCheck ::
  "string \<Rightarrow> ('d, 'v) Event list \<Rightarrow> error option" where
  "ValidateEventsNoVersionCheck aggregateID events =
     (if \<not> same_aggregate aggregateID events then Some ErrMixedAggregate
      else if \<not> contiguous (map Version events) then Some ErrNonContiguousVersion
      else None)"

text \<open>
  Modelled from the spec: \<^verbatim>\<open>eventstore.ValidateEvents\<close> is called by the in-memory and
  the sql backends and is not among the sources. Section 4.2: besides the checks above,
  the first Version of the batch equals the current persisted Version of the aggregate
  plus one; on mismatch the batch fails with ConcurrencyConflict.
\<close>

definition ValidateEvents ::
  "string \<Rightarrow> Version \<Rightarrow> ('d, 'v) Event list \<Rightarrow> error option" where
  "ValidateEvents aggregateID currentVersion events =
     (case ValidateEventsNoVersionCheck aggregateID events of
        Some err \<Rightarrow> Some err
      | None \<Rightarrow>
          (case events of
             [] \<Rightarrow> None
           | first # _ \<Rightarrow>
               if Version first \<noteq> currentVersion + 1 then Some ErrConcurrencyConflict
               else None))"

section \<open>The in-memory event store (package memory)\<close>

text \<open>\<^verbatim>\<open>type Memory[T any] struct\<close>. The mutex serialises the calls; the model is the
  sequential store it guards.\<close>

record ('d, 'v) Memory =
  aggregateEvents :: "string \<rightharpoonup> ('d, 'v) Event list"
  eventsInOrder :: "('d, 'v) Event list"

text \<open>\<^verbatim>\<open>type iterator[T any] struct\<close> of package memory, with its fields \<^verbatim>\<open>events\<close>
  and \<^verbatim>\<open>position\<close>.\<close>

record ('d, 'v) iterator =
  iter_events :: "('d, 'v) Event list"
  iter_position :: nat

text \<open>\<^verbatim>\<open>func (i *iterator[T]) Next()\<close>: the result and the iterator after the call.\<close>

definition Next ::
  "('d, 'v) iterator \<Rightarrow> (error + ('d, 'v) Event) \<times> ('d, 'v) iterator" where
  "Next i =
     (if length (iter_events i) \<le> iter_position i then (Inl ErrNoMoreEvents, i)
      else (Inr (iter_events i ! iter_position i),
            i\<lparr>iter_position := iter_position i + 1\<rparr>))"

definition Close :: "('d, 'v) iterator \<Rightarrow> ('d, 'v) iterator" where
  "Close i = i\<lparr>iter_events := [], iter_position := 0\<rparr>"

definition Create :: "('d, 'v) Memory" where
  "Create = \<lparr>aggregateEvents = Map.empty, eventsInOrder = []\<rparr>"

definition aggregateKey :: "string \<Rightarrow> string \<Rightarrow> string" where
  "aggregateKey aggregateType aggregateID = aggregateType @ ''_'' @ aggregateID"

text \<open>Reading a Go map at a missing key gives the \<^verbatim>\<open>nil\<close> slice.\<close>

definition bucket :: "('d, 'v) Memory \<Rightarrow> string \<Rightarrow> ('d, 'v) Event list" where
  "bucket e bucketName =
     (case aggregateEvents e bucketName of None \<Rightarrow> [] | Some evBucket \<Rightarrow> evBucket)"

text \<open>
  The loop of \<^verbatim>\<open>Save\<close>: \<^verbatim>\<open>for i, event := range events\<close>. It returns the caller's slice
  with the GlobalVersions written into it, the bucket and the global list.
\<close>

fun save_loop ::
  "('d, 'v) Event list \<Rightarrow> ('d, 'v) Event list \<Rightarrow> ('d, 'v) Event list \<Rightarrow>
     ('d, 'v) Event list \<times> ('d, 'v) Event list \<times> ('d, 'v) Event list" where
  "save_loop [] evBucket inOrder = ([], evBucket, inOrder)"
| "save_loop (event # rest) evBucket inOrder =
     (let event' = event\<lparr>GlobalVersion := length inOrder + 1\<rparr> in
      case save_loop rest (evBucket @ [event']) (inOrder @ [event']) of
        (rest', evBucket', inOrder') \<Rightarrow> (event' # rest', evBucket', inOrder'))"

text \<open>\<^verbatim>\<open>func (e *Memory[T]) Save(events []Event[T]) error\<close>: the error, the caller's
  slice after the call, and the store after the call.\<close>

definition Save ::
  "('d, 'v) Memory \<Rightarrow> ('d, 'v) Event list \<Rightarrow>
     error option \<times> ('d, 'v) Event list \<times> ('d, 'v) Memory" where
  "Save e events =
     (case events of
        [] \<Rightarrow> (None, events, e)
      | first # _ \<Rightarrow>
          (let aggregateType = AggregateType first;
               aggregateID = AggregateID first;
               bucketName = aggregateKey aggregateType aggregateID;
               evBucket = bucket e bucketName;
               currentVersion = (if length evBucket > 0 then Version (last evBucket) else 0)
           in case ValidateEvents aggregateID currentVersion events of
                Some err \<Rightarrow> (Some err, events, e)
              | None \<Rightarrow>
                  (case save_loop events evBucket (eventsInOrder e) of
                     (events', evBucket', inOrder') \<Rightarrow>
                       (None, events',
                        e\<lparr>aggregateEvents := (aggregateEvents e)(bucketName \<mapsto> evBucket'),
                          eventsInOrder := inOrder'\<rparr>))))"

text \<open>\<^verbatim>\<open>func (e *Memory[T]) Get(ctx, id, aggregateType, afterVersion)\<close>; the context is
  not read by this backend, and the parameter \<^verbatim>\<open>id\<close> is written \<open>ident\<close>.\<close>

definition Get ::
  "('d, 'v) Memory \<Rightarrow> string \<Rightarrow> string \<Rightarrow> Version \<Rightarrow> error + ('d, 'v) iterator" where
  "Get e ident aggregateType afterVersion =
     (let events = filter (\<lambda>ev. Version ev > afterVersion)
                     (bucket e (aggregateKey aggregateType ident))
      in if length events = 0 then Inl ErrNoEvents
         else Inr \<lparr>iter_events = events, iter_position = 0\<rparr>)"

text \<open>A run of the store: \<open>Save\<close> called with each batch in turn, whatever it returns.\<close>

fun saves :: "('d, 'v) Memory \<Rightarrow> ('d, 'v) Event list list \<Rightarrow> ('d, 'v) Memory" where
  "saves e [] = e"
| "saves e (batch # batches) = saves (snd (snd (Save e batch))) batches"

text \<open>\<open>n\<close> successive calls of \<open>Next\<close>: the results in order and the iterator left.\<close>

fun nexts ::
  "nat \<Rightarrow> ('d, 'v) iterator \<Rightarrow> (error + ('d, 'v) Event) list \<times> ('d, 'v) iterator" where
  "nexts 0 i = ([], i)"
| "nexts (Suc n) i =
     (case Next i of (r, i') \<Rightarrow> (case nexts n i' of (rs, i'') \<Rightarrow> (r # rs, i'')))"

subsection \<open>Notions used to state the properties of the store\<close>

text \<open>\<open>stamp n events\<close> is \<open>events\<close> with the GlobalVersions \<open>n + 1\<close>, \<open>n + 2\<close>, ... written
  into it, \<open>event_key\<close> the bucket an event belongs to, and \<open>store_inv\<close> the invariant of
  the stores that \<open>Save\<close> builds.\<close>

fun stamp :: "nat \<Rightarrow> ('d, 'v) Event list \<Rightarrow> ('d, 'v) Event list" where
  "stamp n [] = []"
| "stamp n (event # rest) = event\<lparr>GlobalVersion := n + 1\<rparr> # stamp (n + 1) rest"

definition event_key :: "('d, 'v) Event \<Rightarrow> string" where
  "event_key ev = aggregateKey (AggregateType ev) (AggregateID ev)"

definition store_inv :: "('d, 'v) Memory \<Rightarrow> bool" where
  "store_inv e \<longleftrightarrow>
     map GlobalVersion (eventsInOrder e) = [1..<Suc (length (eventsInOrder e))]
     \<and> (\<forall>k. bucket e k = filter (\<lambda>ev. event_key ev = k) (eventsInOrder e))
     \<and> (\<forall>k. map Version (bucket e k) = [1..<Suc (length (bucket e k))])"

section \<open>Event.Reason and run-time types (package eventsourcing)\<close>

text \<open>
  The run-time type descriptors that \<^verbatim>\<open>reflect.TypeOf\<close> returns, as far as \<^verbatim>\<open>Elem\<close> and
  \<^verbatim>\<open>Name\<close> tell them apart: a named type that is neither a pointer, slice, array, channel
  nor map (a struct, an integer, a string, ...), and the five composite kinds.
\<close>

datatype rtype =
    Named string
  | PtrTo rtype
  | SliceOf rtype
  | ArrayOf nat rtype
  | ChanOf rtype
  | MapOf rtype rtype

text \<open>\<^verbatim>\<open>Type.Elem()\<close> panics if the kind is not Array, Chan, Map, Pointer or Slice.\<close>

fun Elem :: "rtype \<Rightarrow> error + rtype" where
  "Elem (PtrTo t) = Inr t"
| "Elem (SliceOf t) = Inr t"
| "Elem (ArrayOf n t) = Inr t"
| "Elem (ChanOf t) = Inr t"
| "Elem (MapOf k t) = Inr t"
| "Elem (Named n) = Inl (Panic ''reflect: Elem of invalid type'')"

text \<open>\<^verbatim>\<open>Type.Name()\<close> is the empty string for an unnamed type.\<close>

fun Name :: "rtype \<Rightarrow> string" where
  "Name (Named n) = n"
| "Name _ = []"

text \<open>
  \<^verbatim>\<open>func (e Event[T]) Reason() string\<close>. The argument \<open>TypeOf\<close> is \<^verbatim>\<open>reflect.TypeOf\<close> on
  values of the payload type: the dynamic type of \<^verbatim>\<open>any(e.Data)\<close>, and \<open>None\<close> exactly when
  \<^verbatim>\<open>any(e.Data) == any(nil)\<close>, which only a nil value of an interface type \<^verbatim>\<open>T\<close> gives.
\<close>

definition Reason :: "('d \<Rightarrow> rtype option) \<Rightarrow> ('d, 'v) Event \<Rightarrow> error + string" where
  "Reason TypeOf e =
     (case TypeOf (Data e) of
        None \<Rightarrow> Inr []
      | Some t \<Rightarrow> (case Elem t of Inl p \<Rightarrow> Inl p | Inr t' \<Rightarrow> Inr (Name t')))"

section \<open>Snapshots (package eventsourcing)\<close>

text \<open>
  Modelled from the spec: the declaration of \<^verbatim>\<open>AggregateRoot\<close> is not among the sources.
  Section 3: identity (string ID, empty until set), current Version, current
  GlobalVersion, and an ordered buffer of unsaved Events; section 4.1: \<^verbatim>\<open>UnsavedEvents()\<close>
  returns whether the buffer is non-empty. The fields are what \<^verbatim>\<open>ID()\<close>, \<^verbatim>\<open>Version()\<close> and
  \<^verbatim>\<open>GlobalVersion()\<close> return.
\<close>

record ('d, 'v) AggregateRoot =
  root_ID :: string
  root_Version :: Version
  root_GlobalVersion :: Version
  root_Events :: "('d, 'v) Event list"

definition UnsavedEvents :: "('d, 'v) AggregateRoot \<Rightarrow> bool" where
  "UnsavedEvents root = (length (root_Events root) > 0)"

text \<open>\<^verbatim>\<open>type Snapshot struct\<close>.\<close>

record Snapshot =
  snap_ID :: string
  snap_Type :: string
  snap_State :: bytes
  snap_Version :: Version
  snap_GlobalVersion :: Version

text \<open>\<^verbatim>\<open>func validate[T any](root AggregateRoot[T]) error\<close>.\<close>

definition validate :: "('d, 'v) AggregateRoot \<Rightarrow> error option" where
  "validate root =
     (if root_ID root = [] then Some ErrEmptyID
      else if UnsavedEvents root then Some ErrUnsavedEvents
      else None)"

text \<open>
  The argument \<^verbatim>\<open>i interface{}\<close> of \<^verbatim>\<open>SnapshotHandler.Save\<close>, by the type assertions the
  function makes: a value with the methods of \<^verbatim>\<open>SnapshotAggregate[T]\<close> (its root, its
  dynamic type and its \<^verbatim>\<open>Marshal\<close> method, which is handed the serializer's marshal
  function), a value with the methods of \<^verbatim>\<open>Aggregate[T]\<close> only (its root, its dynamic type
  and the state the serializer marshals), or anything else.
\<close>

datatype ('d, 'v, 'x) snapshot_input =
    IsSnapshotAggregate "('d, 'v) AggregateRoot" rtype "('x \<Rightarrow> error + bytes) \<Rightarrow> error + bytes"
  | IsAggregate "('d, 'v) AggregateRoot" rtype 'x
  | NotAnAggregate

text \<open>
  \<^verbatim>\<open>saveSnapshotAggregate\<close> and \<^verbatim>\<open>saveAggregate\<close>. \<open>store_Save\<close> is \<^verbatim>\<open>snapshotStore.Save\<close>
  acting on the state \<open>ss\<close> of the snapshot store, \<open>Marshal\<close> is \<^verbatim>\<open>serializer.Marshal\<close>.
\<close>

definition saveSnapshotAggregate ::
  "('ss \<Rightarrow> Snapshot \<Rightarrow> error option \<times> 'ss) \<Rightarrow> ('x \<Rightarrow> error + bytes) \<Rightarrow> 'ss \<Rightarrow>
     ('d, 'v) AggregateRoot \<Rightarrow> rtype \<Rightarrow> (('x \<Rightarrow> error + bytes) \<Rightarrow> error + bytes) \<Rightarrow>
     error option \<times> 'ss" where
  "saveSnapshotAggregate store_Save Marshal ss root sa_type sa_Marshal =
     (case validate root of
        Some err \<Rightarrow> (Some err, ss)
      | None \<Rightarrow>
          (case Elem sa_type of
             Inl p \<Rightarrow> (Some p, ss)
           | Inr t \<Rightarrow>
               (case sa_Marshal Marshal of
                  Inl err \<Rightarrow> (Some err, ss)
                | Inr b \<Rightarrow>
                    store_Save ss
                      \<lparr>snap_ID = root_ID root, snap_Type = Name t, snap_State = b,
                       snap_Version = root_Version root,
                       snap_GlobalVersion = root_GlobalVersion root\<rparr>)))"

definition saveAggregate ::
  "('ss \<Rightarrow> Snapshot \<Rightarrow> error option \<times> 'ss) \<Rightarrow> ('x \<Rightarrow> error + bytes) \<Rightarrow> 'ss \<Rightarrow>
     ('d, 'v) AggregateRoot \<Rightarrow> rtype \<Rightarrow> 'x \<Rightarrow> error option \<times> 'ss" where
  "saveAggregate store_Save Marshal ss root sa_type sa =
     (case validate root of
        Some err \<Rightarrow> (Some err, ss)
      | None \<Rightarrow>
          (case Elem sa_type of
             Inl p \<Rightarrow> (Some p, ss)
           | Inr t \<Rightarrow>
               (case Marshal sa of
                  Inl err \<Rightarrow> (Some err, ss)
                | Inr b \<Rightarrow>
                    store_Save ss
                      \<lparr>snap_ID = root_ID root, snap_Type = Name t, snap_State = b,
                       snap_Version = root_Version root,
                       snap_GlobalVersion = root_GlobalVersion root\<rparr>)))"

text \<open>\<^verbatim>\<open>func (s *SnapshotHandler[T]) Save(i interface{}) error\<close>: the error and the
  snapshot store after the call.\<close>

definition SnapshotHandler_Save ::
  "('ss \<Rightarrow> Snapshot \<Rightarrow> error option \<times> 'ss) \<Rightarrow> ('x \<Rightarrow> error + bytes) \<Rightarrow> 'ss \<Rightarrow>
     ('d, 'v, 'x) snapshot_input \<Rightarrow> error option \<times> 'ss" where
  "SnapshotHandler_Save store_Save Marshal ss i =
     (case i of
        IsSnapshotAggregate root sa_type sa_Marshal \<Rightarrow>
          saveSnapshotAggregate store_Save Marshal ss root sa_type sa_Marshal
      | IsAggregate root sa_type sa \<Rightarrow> saveAggregate store_Save Marshal ss root sa_type sa
      | NotAnAggregate \<Rightarrow> (Some ErrNotAnAggregate, ss))"

subsection \<open>The life of an aggregate root\<close>

text \<open>
  Modelled from the spec: the methods of \<^verbatim>\<open>AggregateRoot\<close> are not among the sources.
  Section 3: the identity is empty until set, and the root starts with no unsaved event.
  Section 4.1: \<^verbatim>\<open>SetID(id)\<close> sets the identity once and fails if an ID is already set or if
  any event has already been tracked. \<^verbatim>\<open>TrackChange(eventData, metadata)\<close> fails with EmptyID
  if the identity is unresolved and the ID generator itself fails (\<open>generated\<close> is what the
  generator returns when it is called, empty when it fails); otherwise it constructs an
  Event with Version = current Version + 1, the aggregate's type name, Timestamp = now and
  the given Data and Metadata, appends it to the unsaved buffer and increments Version.
  \<^verbatim>\<open>BuildFromHistory(events)\<close> sets Version and GlobalVersion to those of the last folded
  event and does not interact with the unsaved buffer. Section 4.3: \<^verbatim>\<open>Repository.Save\<close>, on
  success, clears the unsaved buffer and updates the GlobalVersion (\<open>saved\<close>). The
  domain fields that \<^verbatim>\<open>Transition\<close> updates are not part of the root.
\<close>

definition new_root :: "('d, 'v) AggregateRoot" where
  "new_root = \<lparr>root_ID = [], root_Version = 0, root_GlobalVersion = 0, root_Events = []\<rparr>"

definition SetID :: "string \<Rightarrow> ('d, 'v) AggregateRoot \<Rightarrow> error + ('d, 'v) AggregateRoot" where
  "SetID ident root =
     (if root_ID root \<noteq> [] \<or> root_Events root \<noteq> [] then
        Inl (ErrOther ''aggregate already exists'')
      else Inr (root\<lparr>root_ID := ident\<rparr>))"

definition TrackChange ::
  "string \<Rightarrow> string \<Rightarrow> Time \<Rightarrow> 'd \<Rightarrow> (string \<rightharpoonup> 'v) option \<Rightarrow> ('d, 'v) AggregateRoot \<Rightarrow>
     error + ('d, 'v) AggregateRoot" where
  "TrackChange generated aggregateType now eventData metadata root =
     (let ident = (if root_ID root = [] then generated else root_ID root)
      in if ident = [] then Inl ErrEmptyID
         else Inr (root\<lparr>root_ID := ident,
                        root_Version := root_Version root + 1,
                        root_Events := root_Events root @
                          [\<lparr>AggregateID = ident, Version = root_Version root + 1,
                            GlobalVersion = 0, AggregateType = aggregateType,
                            Timestamp = now, Data = eventData, Metadata = metadata\<rparr>]\<rparr>))"

definition BuildFromHistory ::
  "('d, 'v) Event list \<Rightarrow> ('d, 'v) AggregateRoot \<Rightarrow> ('d, 'v) AggregateRoot" where
  "BuildFromHistory events root =
     (case events of
        [] \<Rightarrow> root
      | _ # _ \<Rightarrow> root\<lparr>root_Version := Version (last events),
                        root_GlobalVersion := GlobalVersion (last events)\<rparr>)"

definition saved :: "Version \<Rightarrow> ('d, 'v) AggregateRoot \<Rightarrow> ('d, 'v) AggregateRoot" where
  "saved globalVersion root = root\<lparr>root_Events := [], root_GlobalVersion := globalVersion\<rparr>"

text \<open>
  \<^verbatim>\<open>root.setInternals(snap.ID, snap.Version, snap.GlobalVersion)\<close>, the call that
  \<^verbatim>\<open>SnapshotHandler.Get\<close> makes once it has unmarshalled a snapshot. Modelled from the
  spec: the body of the method is not among the sources; section 4.3, the snapshot sets
  the baseline of the aggregate.
\<close>

definition setInternals ::
  "string \<Rightarrow> Version \<Rightarrow> Version \<Rightarrow> ('d, 'v) AggregateRoot \<Rightarrow> ('d, 'v) AggregateRoot" where
  "setInternals ident version globalVersion root =
     root\<lparr>root_ID := ident, root_Version := version, root_GlobalVersion := globalVersion\<rparr>"

text \<open>
  What happens to an aggregate root between its construction and the moment it is passed
  to \<^verbatim>\<open>SnapshotHandler.Save\<close>: a sequence of these calls, each applied to the root the
  previous one left; a call that fails leaves the root as it was.
\<close>

datatype ('d, 'v) root_call =
    CallSetID string
  | CallTrackChange string string Time 'd "(string \<rightharpoonup> 'v) option"
  | CallBuildFromHistory "('d, 'v) Event list"
  | Saved Version
  | Restored Snapshot

fun call :: "('d, 'v) root_call \<Rightarrow> ('d, 'v) AggregateRoot \<Rightarrow> ('d, 'v) AggregateRoot" where
  "call (CallSetID ident) root = (case SetID ident root of Inl err \<Rightarrow> root | Inr root' \<Rightarrow> root')"
| "call (CallTrackChange generated aggregateType now eventData metadata) root =
     (case TrackChange generated aggregateType now eventData metadata root of
        Inl err \<Rightarrow> root | Inr root' \<Rightarrow> root')"
| "call (CallBuildFromHistory events) root = BuildFromHistory events root"
| "call (Saved globalVersion) root = saved globalVersion root"
| "call (Restored snap) root =
     setInternals (snap_ID snap) (snap_Version snap) (snap_GlobalVersion snap) root"

fun calls :: "('d, 'v) root_call list \<Rightarrow> ('d, 'v) AggregateRoot \<Rightarrow> ('d, 'v) AggregateRoot" where
  "calls [] root = root"
| "calls (c # cs) root = calls cs (call c root)"

text \<open>
  \<open>identified_snapshot\<close>: a snapshot that is restored carries an identity, as every
  snapshot that \<open>SnapshotHandler_Save\<close> hands to the store does. \<open>identified\<close>: a root
  with an unsaved event has an identity.
\<close>

fun identified_snapshot :: "('d, 'v) root_call \<Rightarrow> bool" where
  "identified_snapshot (Restored snap) = (snap_ID snap \<noteq> [])"
| "identified_snapshot _ = True"

definition identified :: "('d, 'v) AggregateRoot \<Rightarrow> bool" where
  "identified root = (root_Events root = [] \<or> root_ID root \<noteq> [])"

section \<open>The serializer\<close>

text \<open>
  The wrapper event of the bbolt backend. Its declaration is not among the sources; the
  fields are the ones \<^verbatim>\<open>Next\<close> of that backend reads.
\<close>

record 'v boltEvent =
  be_AggregateID :: string
  be_Version :: nat
  be_GlobalVersion :: nat
  be_Reason :: string
  be_AggregateType :: string
  be_Timestamp :: Time
  be_Data :: bytes
  be_Metadata :: "(string \<rightharpoonup> 'v) option"

text \<open>
  \<^verbatim>\<open>eventsourcing.Serializer[T]\<close>. Its declaration is not among the sources, and what its
  functions compute is injected by the application; the backends are modelled for every
  serializer. The record holds the three methods the backends call: \<^verbatim>\<open>Marshal\<close> and
  \<^verbatim>\<open>Unmarshal\<close>, once for each type of value they are applied to (\<^verbatim>\<open>Unmarshal\<close> on event
  data is given the fresh payload it fills), and \<^verbatim>\<open>Type\<close>, whose result is the payload the
  registered factory \<^verbatim>\<open>f()\<close> makes, or \<open>None\<close> when \<^verbatim>\<open>found\<close> is false.
\<close>

record ('d, 'v) Serializer =
  Marshal_Data :: "'d \<Rightarrow> error + bytes"
  Marshal_Metadata :: "(string \<rightharpoonup> 'v) \<Rightarrow> error + bytes"
  Unmarshal_Data :: "bytes \<Rightarrow> 'd \<Rightarrow> error + 'd"
  Unmarshal_Metadata :: "bytes \<Rightarrow> error + (string \<rightharpoonup> 'v) option"
  Unmarshal_boltEvent :: "bytes \<Rightarrow> error + 'v boltEvent"
  Type :: "string \<Rightarrow> string \<Rightarrow> 'd option"

section \<open>The Event Store DB backend (package esdb)\<close>

text \<open>
  The values exchanged with the client library \<^verbatim>\<open>EventStore-Client-Go\<close>: the event data
  handed to \<^verbatim>\<open>AppendToStream\<close>, the expected revision, the write result, the recorded
  event and the errors that \<^verbatim>\<open>Recv\<close> returns, with the fields and cases the backend
  uses.
\<close>

datatype ContentType = ContentTypeBinary | ContentTypeJson

record EventData =
  ed_ContentType :: ContentType
  ed_EventType :: string
  ed_Data :: bytes
  ed_Metadata :: "bytes option"

datatype ExpectedRevision = Any | NoStream | StreamRevision nat

record WriteResult =
  CommitPosition :: nat

record RecordedEvent =
  re_StreamID :: string
  re_EventType :: string
  re_EventNumber :: nat
  re_CreatedDate :: Time
  re_Data :: bytes
  re_UserMetadata :: "bytes option"

datatype recv_error = EOF | ResourceNotFound | OtherError string

text \<open>\<^verbatim>\<open>const streamSeparator = "-"\<close>, a string of one character.\<close>

definition streamSeparator :: char where
  "streamSeparator = CHR ''-''"

text \<open>\<^verbatim>\<open>func stream(aggregateType, aggregateID string) string\<close>.\<close>

definition stream :: "string \<Rightarrow> string \<Rightarrow> string" where
  "stream aggregateType aggregateID = aggregateType @ [streamSeparator] @ aggregateID"

text \<open>\<^verbatim>\<open>strings.Split(s, sep)\<close> for a separator of one character; the result is never
  empty.\<close>

fun Split :: "string \<Rightarrow> char \<Rightarrow> string list" where
  "Split [] sep = [[]]"
| "Split (c # cs) sep =
     (if c = sep then [] # Split cs sep
      else (case Split cs sep of [] \<Rightarrow> [[c]] | w # ws \<Rightarrow> (c # w) # ws))"

text \<open>\<^verbatim>\<open>func Open\<close>: the content type of the handler, binary by default.\<close>

definition Open_contentType :: "bool \<Rightarrow> ContentType" where
  "Open_contentType jsonSerializer =
     (if jsonSerializer then ContentTypeJson else ContentTypeBinary)"

text \<open>
  The first loop of \<^verbatim>\<open>ESDB.Save\<close>, which fills \<^verbatim>\<open>esdbEvents\<close>: the data is marshalled,
  then the metadata when it is not \<^verbatim>\<open>nil\<close>, then \<^verbatim>\<open>event.Reason()\<close> is evaluated.
\<close>

fun esdbEvents ::
  "('d, 'v) Serializer \<Rightarrow> ContentType \<Rightarrow> ('d \<Rightarrow> rtype option) \<Rightarrow> ('d, 'v) Event list \<Rightarrow>
     error + EventData list" where
  "esdbEvents ser contentType TypeOf [] = Inr []"
| "esdbEvents ser contentType TypeOf (event # rest) =
     (case Marshal_Data ser (Data event) of
        Inl err \<Rightarrow> Inl err
      | Inr e \<Rightarrow>
          (case (case Metadata event of
                   None \<Rightarrow> Inr None
                 | Some md \<Rightarrow>
                     (case Marshal_Metadata ser md of
                        Inl err \<Rightarrow> Inl err | Inr m \<Rightarrow> Inr (Some m))) of
             Inl err \<Rightarrow> Inl err
           | Inr m \<Rightarrow>
               (case Reason TypeOf event of
                  Inl p \<Rightarrow> Inl p
                | Inr reason \<Rightarrow>
                    (case esdbEvents ser contentType TypeOf rest of
                       Inl err \<Rightarrow> Inl err
                     | Inr eventDatas \<Rightarrow>
                         Inr (\<lparr>ed_ContentType = contentType, ed_EventType = reason,
                               ed_Data = e, ed_Metadata = m\<rparr> # eventDatas)))))"

text \<open>The expected revision \<^verbatim>\<open>Save\<close> asks for; left unset (any) for version 0.\<close>

definition expectedRevision :: "Version \<Rightarrow> ExpectedRevision" where
  "expectedRevision version =
     (if version > 1 then StreamRevision (version - 2)
      else if version = 1 then NoStream
      else Any)"

text \<open>
  \<^verbatim>\<open>func (es *ESDB[T]) Save(events []Event[T]) error\<close>. \<open>AppendToStream\<close> is the client's
  method, acting on the state \<open>c\<close> of the service; the result is the error, the caller's
  slice after the call and the service after the call.
\<close>

definition esdb_Save ::
  "('d, 'v) Serializer \<Rightarrow> ContentType \<Rightarrow> ('d \<Rightarrow> rtype option) \<Rightarrow>
     ('c \<Rightarrow> string \<Rightarrow> ExpectedRevision \<Rightarrow> EventData list \<Rightarrow> (error + WriteResult) \<times> 'c) \<Rightarrow>
     'c \<Rightarrow> ('d, 'v) Event list \<Rightarrow> error option \<times> ('d, 'v) Event list \<times> 'c" where
  "esdb_Save ser contentType TypeOf AppendToStream c events =
     (case events of
        [] \<Rightarrow> (None, events, c)
      | first # _ \<Rightarrow>
          (let aggregateID = AggregateID first;
               aggregateType = AggregateType first;
               version = Version first;
               streamName = stream aggregateType aggregateID
           in case ValidateEventsNoVersionCheck aggregateID events of
                Some err \<Rightarrow> (Some err, events, c)
              | None \<Rightarrow>
                  (case esdbEvents ser contentType TypeOf events of
                     Inl err \<Rightarrow> (Some err, events, c)
                   | Inr eventDatas \<Rightarrow>
                       (case AppendToStream c streamName (expectedRevision version) eventDatas of
                          (Inl err, c') \<Rightarrow> (Some err, events, c')
                        | (Inr wr, c') \<Rightarrow>
                            (None,
                             map (\<lambda>event. event\<lparr>GlobalVersion := CommitPosition wr\<rparr>) events,
                             c')))))"

text \<open>
  \<^verbatim>\<open>func (i *iterator[T]) Next()\<close> of package esdb. The iterator is the read stream: the
  results that \<^verbatim>\<open>Recv\<close> has still to deliver, \<^verbatim>\<open>io.EOF\<close> after the last. The Version is
  the unsigned 64-bit sum of the event number and one; the GlobalVersion field is not set.
\<close>

fun esdb_Next ::
  "('d, 'v) Serializer \<Rightarrow> (recv_error + RecordedEvent) list \<Rightarrow>
     (error + ('d, 'v) Event) \<times> (recv_error + RecordedEvent) list" where
  "esdb_Next ser [] = (Inl ErrNoMoreEvents, [])"
| "esdb_Next ser (Inl EOF # rest) = (Inl ErrNoMoreEvents, rest)"
| "esdb_Next ser (Inl ResourceNotFound # rest) = (Inl ErrNoMoreEvents, rest)"
| "esdb_Next ser (Inl (OtherError msg) # rest) = (Inl (ErrOther msg), rest)"
| "esdb_Next ser (Inr eventESDB # rest) =
     (case Split (re_StreamID eventESDB) streamSeparator of
        [] \<Rightarrow> (Inl (Panic ''index out of range''), rest)
      | stream0 # stream_tail \<Rightarrow>
          (case Type ser stream0 (re_EventType eventESDB) of
             None \<Rightarrow> esdb_Next ser rest
           | Some f \<Rightarrow>
               (case Unmarshal_Data ser (re_Data eventESDB) f of
                  Inl err \<Rightarrow> (Inl err, rest)
                | Inr eventData \<Rightarrow>
                    (case (case re_UserMetadata eventESDB of
                             None \<Rightarrow> Inr None
                           | Some m \<Rightarrow> Unmarshal_Metadata ser m) of
                       Inl err \<Rightarrow> (Inl err, rest)
                     | Inr eventMetadata \<Rightarrow>
                         (case stream_tail of
                            [] \<Rightarrow> (Inl (Panic ''index out of range''), rest)
                          | stream1 # _ \<Rightarrow>
                              (Inr \<lparr>AggregateID = stream1,
                                    Version = (re_EventNumber eventESDB + 1) mod 2 ^ 64,
                                    GlobalVersion = 0,
                                    AggregateType = stream0,
                                    Timestamp = re_CreatedDate eventESDB,
                                    Data = eventData,
                                    Metadata = eventMetadata\<rparr>, rest))))))"

text \<open>
  \<^verbatim>\<open>func (es *ESDB[T]) Get(ctx, id, aggregateType, afterVersion)\<close>. \<open>ReadStream\<close> is the
  client's method, reading the stream forwards from the revision \<^verbatim>\<open>uint64(afterVersion)\<close>
  without a limit on the count; \<open>ctx_Err\<close> is \<^verbatim>\<open>ctx.Err()\<close> after the call. The iterator
  returned is the read stream.
\<close>

definition esdb_Get ::
  "('c \<Rightarrow> string \<Rightarrow> nat \<Rightarrow> recv_error + (recv_error + RecordedEvent) list) \<Rightarrow> error option \<Rightarrow>
     'c \<Rightarrow> string \<Rightarrow> string \<Rightarrow> Version \<Rightarrow> error + (recv_error + RecordedEvent) list" where
  "esdb_Get ReadStream ctx_Err c ident aggregateType afterVersion =
     (let streamID = stream aggregateType ident;
          from = afterVersion mod 2 ^ 64
      in case ReadStream c streamID from of
           Inl ResourceNotFound \<Rightarrow> Inl ErrNoEvents
         | Inl EOF \<Rightarrow> Inl (ErrOther ''EOF'')
         | Inl (OtherError msg) \<Rightarrow> Inl (ErrOther msg)
         | Inr s \<Rightarrow> (case ctx_Err of Some err \<Rightarrow> Inl err | None \<Rightarrow> Inr s))"

text \<open>\<open>n\<close> successive calls of \<open>esdb_Next\<close>: the results in order and the stream left.\<close>

fun esdb_nexts ::
  "nat \<Rightarrow> ('d, 'v) Serializer \<Rightarrow> (recv_error + RecordedEvent) list \<Rightarrow>
     (error + ('d, 'v) Event) list \<times> (recv_error + RecordedEvent) list" where
  "esdb_nexts 0 ser s = ([], s)"
| "esdb_nexts (Suc n) ser s =
     (case esdb_Next ser s of (r, s') \<Rightarrow> (case esdb_nexts n ser s' of (rs, s'') \<Rightarrow> (r # rs, s'')))"

subsection \<open>The service behind the client\<close>

text \<open>
  The Event Store DB service as far as the backend depends on it, by the contract of the
  service. A stream is the list of its recorded events, numbered from 0 in the order they
  were appended; a stream that was never written does not exist. An append names the
  revision it expects: any, no stream (the stream does not exist), or the number of the
  last event of the stream; when the stream is not at that revision the append is refused
  and nothing is written, otherwise the events are recorded after the last one, with the
  creation date of the service's clock, and the write result carries the commit position.
  Reading a stream forwards from a revision delivers its events from that number on, and
  fails with resource-not-found when the stream does not exist.
\<close>

record service =
  svc_streams :: "string \<rightharpoonup> RecordedEvent list"
  svc_position :: nat
  svc_now :: Time

fun recorded :: "string \<Rightarrow> nat \<Rightarrow> Time \<Rightarrow> EventData list \<Rightarrow> RecordedEvent list" where
  "recorded streamName n now [] = []"
| "recorded streamName n now (d # ds) =
     \<lparr>re_StreamID = streamName, re_EventType = ed_EventType d, re_EventNumber = n,
      re_CreatedDate = now, re_Data = ed_Data d, re_UserMetadata = ed_Metadata d\<rparr>
     # recorded streamName (Suc n) now ds"

definition revision_matches :: "ExpectedRevision \<Rightarrow> RecordedEvent list option \<Rightarrow> bool" where
  "revision_matches revision current =
     (case revision of
        Any \<Rightarrow> True
      | NoStream \<Rightarrow> current = None
      | StreamRevision n \<Rightarrow> (case current of None \<Rightarrow> False | Some es \<Rightarrow> length es = n + 1))"

definition service_AppendToStream ::
  "service \<Rightarrow> string \<Rightarrow> ExpectedRevision \<Rightarrow> EventData list \<Rightarrow> (error + WriteResult) \<times> service" where
  "service_AppendToStream svc streamName revision eventDatas =
     (let current = (case svc_streams svc streamName of None \<Rightarrow> [] | Some es \<Rightarrow> es)
      in if revision_matches revision (svc_streams svc streamName) then
           (Inr \<lparr>CommitPosition = svc_position svc\<rparr>,
            svc\<lparr>svc_streams := (svc_streams svc)
                    (streamName \<mapsto>
                       current @ recorded streamName (length current) (svc_now svc) eventDatas),
                svc_position := svc_position svc + length eventDatas\<rparr>)
         else (Inl (ErrOther ''wrong expected version''), svc))"

definition service_ReadStream ::
  "service \<Rightarrow> string \<Rightarrow> nat \<Rightarrow> recv_error + (recv_error + RecordedEvent) list" where
  "service_ReadStream svc streamName from =
     (case svc_streams svc streamName of
        None \<Rightarrow> Inl ResourceNotFound
      | Some es \<Rightarrow> Inr (map Inr (drop from es)))"

subsection \<open>Notions used to state the properties of the backend\<close>

text \<open>
  \<open>restores ser TypeOf event\<close>: the serializer marshals the data of the event, the reason
  of the event is registered for its aggregate type, and \<open>Unmarshal\<close> gives the data back
  from the marshalled bytes; likewise for the metadata when the event has some.
\<close>

definition restores :: "('d, 'v) Serializer \<Rightarrow> ('d \<Rightarrow> rtype option) \<Rightarrow> ('d, 'v) Event \<Rightarrow> bool" where
  "restores ser TypeOf event =
     ((case Marshal_Data ser (Data event) of
         Inl err \<Rightarrow> False
       | Inr b \<Rightarrow>
           (case Reason TypeOf event of
              Inl p \<Rightarrow> False
            | Inr reason \<Rightarrow>
                (case Type ser (AggregateType event) reason of
                   None \<Rightarrow> False
                 | Some f \<Rightarrow> Unmarshal_Data ser b f = Inr (Data event))))
      \<and> (case Metadata event of
            None \<Rightarrow> True
          | Some md \<Rightarrow>
              (case Marshal_Metadata ser md of
                 Inl err \<Rightarrow> False
               | Inr m \<Rightarrow> Unmarshal_Metadata ser m = Inr (Some md))))"

section \<open>The bbolt backend: the iterator (package bbolt)\<close>

text \<open>
  \<^verbatim>\<open>type iterator[T any] struct\<close> of package bbolt. The read transaction \<^verbatim>\<open>tx\<close> is the
  buckets it sees, each the list of its key/value pairs in key order; the keys are the
  event indices that \<^verbatim>\<open>itob\<close> encodes (big-endian, so the byte order is the numeric
  order). The cursor is \<open>None\<close> when it is \<^verbatim>\<open>nil\<close>, else the pairs from its current
  position on.
\<close>

record bbolt_iterator =
  bolt_tx :: "string \<rightharpoonup> (nat \<times> bytes) list"
  bolt_bucketName :: string
  bolt_firstEventIndex :: nat
  bolt_cursor :: "(nat \<times> bytes) list option"

text \<open>
  The first part of \<^verbatim>\<open>Next\<close>, up to the test \<^verbatim>\<open>k == nil\<close>: the cursor is created and
  sought to the first event index, or moved to the next pair. The result is the iterator
  alone when \<^verbatim>\<open>Next\<close> returns \<^verbatim>\<open>ErrNoMoreEvents\<close> there, else the pair read and the
  iterator.
\<close>

definition bolt_move ::
  "bbolt_iterator \<Rightarrow> bbolt_iterator + ((nat \<times> bytes) \<times> bbolt_iterator)" where
  "bolt_move i =
     (case bolt_cursor i of
        None \<Rightarrow>
          (case bolt_tx i (bolt_bucketName i) of
             None \<Rightarrow> Inl i
           | Some pairs \<Rightarrow>
               (case dropWhile (\<lambda>(k, obj). k < bolt_firstEventIndex i) pairs of
                  [] \<Rightarrow> Inl (i\<lparr>bolt_cursor := Some []\<rparr>)
                | kv # rest \<Rightarrow> Inr (kv, i\<lparr>bolt_cursor := Some (kv # rest)\<rparr>)))
      | Some cur \<Rightarrow>
          (case tl cur of
             [] \<Rightarrow> Inl (i\<lparr>bolt_cursor := Some []\<rparr>)
           | kv # rest \<Rightarrow> Inr (kv, i\<lparr>bolt_cursor := Some (kv # rest)\<rparr>)))"

text \<open>What is left for the cursor to visit; it decreases with every pair read.\<close>

definition bolt_left :: "bbolt_iterator \<Rightarrow> nat" where
  "bolt_left i =
     (case bolt_cursor i of
        None \<Rightarrow>
          (case bolt_tx i (bolt_bucketName i) of None \<Rightarrow> 1 | Some pairs \<Rightarrow> Suc (length pairs))
      | Some cur \<Rightarrow> length cur)"

text \<open>\<^verbatim>\<open>func (i *iterator[T]) Next()\<close> of package bbolt: the result and the iterator
  after the call.\<close>

function bbolt_Next ::
  "('d, 'v) Serializer \<Rightarrow> bbolt_iterator \<Rightarrow> (error + ('d, 'v) Event) \<times> bbolt_iterator" where
  "bbolt_Next ser i =
     (case bolt_move i of
        Inl i' \<Rightarrow> (Inl ErrNoMoreEvents, i')
      | Inr ((k, obj), i') \<Rightarrow>
          (case Unmarshal_boltEvent ser obj of
             Inl err \<Rightarrow> (Inl (ErrWrapped ''could not deserialize event, '' err), i')
           | Inr bEvent \<Rightarrow>
               (case Type ser (be_AggregateType bEvent) (be_Reason bEvent) of
                  None \<Rightarrow> bbolt_Next ser i'
                | Some f \<Rightarrow>
                    (case Unmarshal_Data ser (be_Data bEvent) f of
                       Inl err \<Rightarrow>
                         (Inl (ErrWrapped ''could not deserialize event data, '' err), i')
                     | Inr eventData \<Rightarrow>
                         (Inr \<lparr>AggregateID = be_AggregateID bEvent,
                               Version = be_Version bEvent,
                               GlobalVersion = be_GlobalVersion bEvent,
                               AggregateType = be_AggregateType bEvent,
                               Timestamp = be_Timestamp bEvent,
                               Data = eventData,
                               Metadata = be_Metadata bEvent\<rparr>, i')))))"
  by pat_completeness auto
termination
proof (relation "measure (\<lambda>(ser, i). bolt_left i)")
  show "wf (measure (\<lambda>(ser :: ('d, 'v) Serializer, i). bolt_left i))"
    by simp
next
  fix ser :: "('d, 'v) Serializer" and i i' :: bbolt_iterator and kv :: "nat \<times> bytes"
    and x k obj and bEvent :: "'v boltEvent"
  assume m: "bolt_move i = Inr x" and x: "(kv, i') = x"
  have "bolt_left i' < bolt_left i"
  proof (cases "bolt_cursor i")
    case None
    show ?thesis
    proof (cases "bolt_tx i (bolt_bucketName i)")
      case N: None
      with None m x show ?thesis by (simp add: bolt_move_def)
    next
      case (Some pairs)
      have "length (dropWhile (\<lambda>(k, obj). k < bolt_firstEventIndex i) pairs) \<le> length pairs"
        by (rule length_dropWhile_le)
      with None Some m x show ?thesis
        by (auto simp: bolt_move_def bolt_left_def split: list.splits)
    qed
  next
    case (Some cur)
    with m x show ?thesis
      by (cases cur) (auto simp: bolt_move_def bolt_left_def split: list.splits)
  qed
  then show "((ser, i'), (ser, i)) \<in> measure (\<lambda>(ser, i). bolt_left i)"
    by simp
qed

declare bbolt_Next.simps [simp del]

section \<open>The sql backend: reading rows (package sql)\<close>

text \<open>A row of the \<^verbatim>\<open>events\<close> table, as \<^verbatim>\<open>rows.Scan\<close> delivers it.\<close>

record sql_row =
  row_seq :: Version
  row_id :: string
  row_version :: Version
  row_reason :: string
  row_type :: string
  row_timestamp :: string
  row_data :: string
  row_metadata :: string

text \<open>
  \<^verbatim>\<open>func (s *SQL[T]) eventsFromRows(rows *sql.Rows)\<close>. The rows are the results of the
  successive \<^verbatim>\<open>rows.Scan\<close> calls and \<open>rows_Err\<close> is what \<^verbatim>\<open>rows.Err()\<close> returns after the
  last; \<open>Parse\<close> is \<^verbatim>\<open>time.Parse(time.RFC3339, _)\<close>. The last argument is the slice
  \<^verbatim>\<open>events\<close> built so far, \<^verbatim>\<open>nil\<close> at the start.
\<close>

fun eventsFromRows ::
  "('d, 'v) Serializer \<Rightarrow> (string \<Rightarrow> error + Time) \<Rightarrow> error option \<Rightarrow>
     (error + sql_row) list \<Rightarrow> ('d, 'v) Event list \<Rightarrow> error + ('d, 'v) Event list" where
  "eventsFromRows ser Parse rows_Err [] events =
     (case rows_Err of Some err \<Rightarrow> Inl err | None \<Rightarrow> Inr events)"
| "eventsFromRows ser Parse rows_Err (Inl err # rows) events = Inl err"
| "eventsFromRows ser Parse rows_Err (Inr row # rows) events =
     (case Parse (row_timestamp row) of
        Inl err \<Rightarrow> Inl err
      | Inr t \<Rightarrow>
          (case Type ser (row_type row) (row_reason row) of
             None \<Rightarrow> eventsFromRows ser Parse rows_Err rows events
           | Some f \<Rightarrow>
               (case Unmarshal_Data ser (row_data row) f of
                  Inl err \<Rightarrow> Inl err
                | Inr eventData \<Rightarrow>
                    (case (if row_metadata row \<noteq> [] then Unmarshal_Metadata ser (row_metadata row)
                           else Inr None) of
                       Inl err \<Rightarrow> Inl err
                     | Inr eventMetadata \<Rightarrow>
                         eventsFromRows ser Parse rows_Err rows
                           (events @
                            [\<lparr>AggregateID = row_id row,
                              Version = row_version row,
                              GlobalVersion = row_seq row,
                              AggregateType = row_type row,
                              Timestamp = t,
                              Data = eventData,
                              Metadata = eventMetadata\<rparr>])))))"

subsection \<open>Stored events that the serializer does not know\<close>

text \<open>A received event, or a scanned row whose timestamp parses, for which the lookup
  \<open>Type\<close> of the serializer finds nothing.\<close>

definition esdb_unregistered ::
  "('d, 'v) Serializer \<Rightarrow> recv_error + RecordedEvent \<Rightarrow> bool" where
  "esdb_unregistered ser x =
     (case x of
        Inl err \<Rightarrow> False
      | Inr r \<Rightarrow>
          (case Split (re_StreamID r) streamSeparator of
             [] \<Rightarrow> False
           | stream0 # stream_tail \<Rightarrow> Type ser stream0 (re_EventType r) = None))"

definition sql_unregistered ::
  "('d, 'v) Serializer \<Rightarrow> (string \<Rightarrow> error + Time) \<Rightarrow> error + sql_row \<Rightarrow> bool" where
  "sql_unregistered ser Parse x =
     (case x of
        Inl err \<Rightarrow> False
      | Inr row \<Rightarrow>
          (case Parse (row_timestamp row) of
             Inl err \<Rightarrow> False
           | Inr t \<Rightarrow> Type ser (row_type row) (row_reason row) = None))"

section \<open>Example values\<close>

text \<open>The payloads of the \<^verbatim>\<open>Person\<close> aggregate of the README: \<^verbatim>\<open>Born{Name}\<close> and
  \<^verbatim>\<open>AgedOneYear{}\<close>.\<close>

datatype PersonEvent = Born string | AgedOneYear

definition person_event :: "Version \<Rightarrow> PersonEvent \<Rightarrow> (PersonEvent, string) Event" where
  "person_event v d =
     \<lparr>AggregateID = ''123'', Version = v, GlobalVersion = 0, AggregateType = ''Person'',
      Timestamp = 1000, Data = d, Metadata = None\<rparr>"

text \<open>Two aggregates whose type and identifier concatenate to the same bucket name:
  type \<^verbatim>\<open>a_b\<close> with identifier \<^verbatim>\<open>c\<close>, and type \<^verbatim>\<open>a\<close> with identifier \<^verbatim>\<open>b_c\<close>;
  likewise \<^verbatim>\<open>Order_Line\<close>/\<^verbatim>\<open>7\<close> and \<^verbatim>\<open>Order\<close>/\<^verbatim>\<open>Line_7\<close>.\<close>

definition line_event :: "(PersonEvent, string) Event" where
  "line_event =
     \<lparr>AggregateID = ''c'', Version = 1, GlobalVersion = 0, AggregateType = ''a_b'',
      Timestamp = 1000, Data = Born ''Alice'', Metadata = None\<rparr>"


definition order_line_event :: "(PersonEvent, string) Event" where
  "order_line_event =
     \<lparr>AggregateID = ''7'', Version = 1, GlobalVersion = 0, AggregateType = ''Order_Line'',
      Timestamp = 1000, Data = AgedOneYear, Metadata = None\<rparr>"

text \<open>
  \<^verbatim>\<open>reflect.TypeOf\<close> for two instantiations of the payload type: payloads that are
  pointers to the event structs (\<^verbatim>\<open>&Born{...}\<close>, as in the README), and payloads that are
  the structs themselves (\<^verbatim>\<open>Born{...}\<close>).
\<close>

definition TypeOf_pointer :: "PersonEvent \<Rightarrow> rtype option" where
  "TypeOf_pointer d =
     (case d of Born name \<Rightarrow> Some (PtrTo (Named ''Born''))
              | AgedOneYear \<Rightarrow> Some (PtrTo (Named ''AgedOneYear'')))"

definition TypeOf_value :: "PersonEvent \<Rightarrow> rtype option" where
  "TypeOf_value d =
     (case d of Born name \<Rightarrow> Some (Named ''Born'')
              | AgedOneYear \<Rightarrow> Some (Named ''AgedOneYear''))"

text \<open>A snapshot store that keeps the snapshots it is given, and an aggregate root with
  one unsaved event.\<close>

definition log_Save :: "Snapshot list \<Rightarrow> Snapshot \<Rightarrow> error option \<times> Snapshot list" where
  "log_Save ss snap = (None, ss @ [snap])"

definition person_root :: "string \<Rightarrow> (PersonEvent, string) AggregateRoot" where
  "person_root ident =
     \<lparr>root_ID = ident, root_Version = 1, root_GlobalVersion = 0,
      root_Events = [person_event 1 (Born ''Alice'')]\<rparr>"

text \<open>
  A serializer for the \<^verbatim>\<open>Person\<close> events: the data of \<^verbatim>\<open>Born\<close> is its name, metadata is
  the value under the key \<^verbatim>\<open>user\<close>, a bbolt value is one of two stored wrapper events, and
  the reasons \<^verbatim>\<open>Born\<close> and \<^verbatim>\<open>AgedOneYear\<close> of type \<^verbatim>\<open>Person\<close> are registered; the
  reason \<^verbatim>\<open>Moved\<close> is not.
\<close>

definition person_serializer :: "(PersonEvent, string) Serializer" where
  "person_serializer =
     \<lparr>Marshal_Data = (\<lambda>d. case d of Born name \<Rightarrow> Inr name | AgedOneYear \<Rightarrow> Inr []),
      Marshal_Metadata =
        (\<lambda>md. case md ''user'' of
                 Some u \<Rightarrow> Inr u
               | None \<Rightarrow> Inl (ErrOther ''metadata without user'')),
      Unmarshal_Data =
        (\<lambda>b target. case target of Born name \<Rightarrow> Inr (Born b) | AgedOneYear \<Rightarrow> Inr AgedOneYear),
      Unmarshal_Metadata = (\<lambda>b. Inr (Some [''user'' \<mapsto> b])),
      Unmarshal_boltEvent =
        (\<lambda>b. if b = ''born'' \<or> b = ''moved'' then
                 Inr \<lparr>be_AggregateID = ''123'', be_Version = (if b = ''born'' then 2 else 1),
                      be_GlobalVersion = (if b = ''born'' then 2 else 1),
                      be_Reason = (if b = ''born'' then ''Born'' else ''Moved''),
                      be_AggregateType = ''Person'', be_Timestamp = 1000,
                      be_Data = ''Alice'', be_Metadata = None\<rparr>
               else Inl (ErrOther ''invalid character'')),
      Type =
        (\<lambda>aggregateType reason.
           if aggregateType = ''Person'' \<and> reason = ''Born'' then Some (Born [])
           else if aggregateType = ''Person'' \<and> reason = ''AgedOneYear'' then Some AgedOneYear
           else None)\<rparr>"

text \<open>A client whose append succeeds at the commit position the service has reached, and
  events as the service records them.\<close>

definition append_at ::
  "nat \<Rightarrow> string \<Rightarrow> ExpectedRevision \<Rightarrow> EventData list \<Rightarrow> (error + WriteResult) \<times> nat" where
  "append_at c streamName revision eventDatas =
     (Inr \<lparr>CommitPosition = c\<rparr>, c + length eventDatas)"

definition recorded_born :: RecordedEvent where
  "recorded_born =
     \<lparr>re_StreamID = ''Person-123'', re_EventType = ''Born'', re_EventNumber = 0,
      re_CreatedDate = 2000, re_Data = ''Alice'', re_UserMetadata = None\<rparr>"

definition recorded_moved :: RecordedEvent where
  "recorded_moved =
     \<lparr>re_StreamID = ''Person-123'', re_EventType = ''Moved'', re_EventNumber = 1,
      re_CreatedDate = 2001, re_Data = ''Paris'', re_UserMetadata = None\<rparr>"

definition tagged_born :: "(PersonEvent, string) Event" where
  "tagged_born = (person_event 1 (Born ''Alice''))\<lparr>Metadata := Some [''user'' \<mapsto> ''bob'']\<rparr>"

definition recorded_tagged :: RecordedEvent where
  "recorded_tagged = recorded_born\<lparr>re_UserMetadata := Some ''bob''\<rparr>"

text \<open>A service that has no stream yet, at commit position 7 and with its clock at 2000,
  and the service once the event \<open>tagged_born\<close> has been appended to it.\<close>

definition example_service :: service where
  "example_service = \<lparr>svc_streams = Map.empty, svc_position = 7, svc_now = 2000\<rparr>"

definition recorded_service :: service where
  "recorded_service =
     \<lparr>svc_streams = [''Person-123'' \<mapsto> [recorded_tagged]], svc_position = 8, svc_now = 2000\<rparr>"

text \<open>A bbolt bucket and sql rows that hold an event with the unregistered reason
  \<^verbatim>\<open>Moved\<close> before a registered one.\<close>

definition bolt_example :: bbolt_iterator where
  "bolt_example =
     \<lparr>bolt_tx = [''Person_123'' \<mapsto> [(1, ''moved''), (2, ''born'')]],
      bolt_bucketName = ''Person_123'', bolt_firstEventIndex = 1, bolt_cursor = None\<rparr>"

definition example_Parse :: "string \<Rightarrow> error + Time" where
  "example_Parse s =
     (if s = ''2024-01-01T00:00:00Z'' then Inr 1000 else Inl (ErrOther ''cannot parse time''))"

definition row_moved :: sql_row where
  "row_moved =
     \<lparr>row_seq = 1, row_id = ''123'', row_version = 1, row_reason = ''Moved'',
      row_type = ''Person'', row_timestamp = ''2024-01-01T00:00:00Z'', row_data = ''Paris'',
      row_metadata = []\<rparr>"

definition row_born :: sql_row where
  "row_born =
     \<lparr>row_seq = 2, row_id = ''123'', row_version = 2, row_reason = ''Born'',
      row_type = ''Person'', row_timestamp = ''2024-01-01T00:00:00Z'', row_data = ''Alice'',
      row_metadata = []\<rparr>"

section \<open>The in-memory store: invariant of the stores built by Save\<close>

lemma contiguous_upt: "contiguous (v # vs) \<longleftrightarrow> v # vs = [v..<v + Suc (length vs)]"
proof (induction vs arbitrary: v)
  case Nil
  show ?case by simp
next
  case (Cons w ws)
  have u: "[v..<v + Suc (length (w # ws))] = v # [Suc v..<Suc v + Suc (length ws)]"
    using upt_conv_Cons [of v "v + Suc (length (w # ws))"] by simp
  have h: "[Suc v..<Suc v + Suc (length ws)] = Suc v # [Suc (Suc v)..<Suc v + Suc (length ws)]"
    using upt_conv_Cons [of "Suc v" "Suc v + Suc (length ws)"] by simp
  have "contiguous (v # w # ws) \<longleftrightarrow> w = Suc v \<and> w # ws = [w..<w + Suc (length ws)]"
    using Cons [of w] by simp
  also have "\<dots> \<longleftrightarrow> w # ws = [Suc v..<Suc v + Suc (length ws)]"
    using h by auto
  finally show ?case by (simp only: u list.inject simp_thms)
qed

lemma length_stamp [simp]: "length (stamp n evs) = length evs"
  by (induction evs arbitrary: n) auto

lemma stamp_GlobalVersion:
  "map GlobalVersion (stamp n evs) = [Suc n..<Suc n + length evs]"
proof (induction evs arbitrary: n)
  case Nil
  show ?case by simp
next
  case (Cons ev evs)
  have "[Suc n..<Suc n + length (ev # evs)] = Suc n # [Suc (Suc n)..<Suc (Suc n) + length evs]"
    using upt_conv_Cons [of "Suc n" "Suc n + length (ev # evs)"] by simp
  with Cons [of "Suc n"] show ?case by simp
qed

lemma stamp_Version [simp]: "map Version (stamp n evs) = map Version evs"
  by (induction evs arbitrary: n) auto

lemma stamp_Data [simp]: "map Data (stamp n evs) = map Data evs"
  by (induction evs arbitrary: n) auto

lemma stamp_key [simp]: "map event_key (stamp n evs) = map event_key evs"
  by (induction evs arbitrary: n) (auto simp: event_key_def)

lemma stamp_nth:
  "i < length evs \<Longrightarrow> stamp n evs ! i = (evs ! i)\<lparr>GlobalVersion := n + i + 1\<rparr>"
proof (induction evs arbitrary: n i)
  case Nil
  then show ?case by simp
next
  case (Cons ev evs)
  then show ?case by (cases i) auto
qed

lemma save_loop_stamp:
  "save_loop evs evBucket inOrder =
     (stamp (length inOrder) evs, evBucket @ stamp (length inOrder) evs,
      inOrder @ stamp (length inOrder) evs)"
  by (induction evs arbitrary: evBucket inOrder) (auto simp: Let_def)

lemma ValidateEvents_accepts:
  assumes "ValidateEvents aggregateID currentVersion (first # rest) = None"
  shows "map Version (first # rest) = [Suc currentVersion..<Suc currentVersion + Suc (length rest)]"
    and "list_all (\<lambda>ev. AggregateID ev = aggregateID \<and> AggregateType ev = AggregateType first)
           (first # rest)"
proof -
  from assms have c: "contiguous (map Version (first # rest))"
    and s: "same_aggregate aggregateID (first # rest)"
    and v: "Version first = currentVersion + 1"
    by (auto simp: ValidateEvents_def ValidateEventsNoVersionCheck_def
             split: option.splits if_splits)
  from c have "Version first # map Version rest
                 = [Version first..<Version first + Suc (length (map Version rest))]"
    using contiguous_upt [of "Version first" "map Version rest"] by simp
  with v show "map Version (first # rest)
      = [Suc currentVersion..<Suc currentVersion + Suc (length rest)]" by simp
  from s show "list_all (\<lambda>ev. AggregateID ev = aggregateID \<and> AggregateType ev = AggregateType first)
           (first # rest)" by (simp add: same_aggregate_def)
qed

lemma Save_rejected:
  "Save e evs = (Some err, evs', e') \<Longrightarrow> evs' = evs \<and> e' = e"
  by (auto simp: Save_def Let_def split: list.splits option.splits prod.splits)

lemma Save_empty [simp]: "Save e [] = (None, [], e)"
  by (simp add: Save_def)

lemma Save_accepted:
  assumes "Save e (first # rest) = (None, evs', e')"
  shows "evs' = stamp (length (eventsInOrder e)) (first # rest)"
    and "eventsInOrder e' = eventsInOrder e @ evs'"
    and "aggregateEvents e' = (aggregateEvents e)(event_key first \<mapsto> bucket e (event_key first) @ evs')"
    and "ValidateEvents (AggregateID first)
           (if length (bucket e (event_key first)) > 0 then Version (last (bucket e (event_key first))) else 0)
           (first # rest) = None"
  using assms
  by (auto simp: Save_def Let_def save_loop_stamp event_key_def
           split: option.splits prod.splits)

lemma store_inv_Create: "store_inv Create"
  by (simp add: store_inv_def Create_def bucket_def)

lemma store_inv_GlobalVersion:
  "store_inv e \<Longrightarrow> map GlobalVersion (eventsInOrder e) = [1..<Suc (length (eventsInOrder e))]"
  unfolding store_inv_def by blast

lemma store_inv_bucket:
  "store_inv e \<Longrightarrow> bucket e k = filter (\<lambda>ev. event_key ev = k) (eventsInOrder e)"
  unfolding store_inv_def by blast

lemma store_inv_Version:
  "store_inv e \<Longrightarrow> map Version (bucket e k) = [1..<Suc (length (bucket e k))]"
  unfolding store_inv_def by blast

lemma upt_append_Suc: "[1..<Suc m] @ [Suc m..<Suc m + n] = [1..<Suc (m + n)]"
  using upt_add_eq_append [of 1 "Suc m" n] by simp

lemma store_inv_current:
  assumes "store_inv e"
  shows "(if length (bucket e k) > 0 then Version (last (bucket e k)) else 0) = length (bucket e k)"
proof (cases "bucket e k = []")
  case True
  then show ?thesis by simp
next
  case False
  have "Version (last (bucket e k)) = last (map Version (bucket e k))"
    using False by (simp add: last_map)
  also have "\<dots> = last [1..<Suc (length (bucket e k))]"
    by (simp only: store_inv_Version [OF assms])
  also have "\<dots> = length (bucket e k)"
    using False by (cases "bucket e k") simp_all
  finally show ?thesis using False by simp
qed

lemma store_inv_Save:
  assumes inv: "store_inv e"
  shows "store_inv (snd (snd (Save e evs)))"
proof (cases evs)
  case Nil
  with inv show ?thesis by simp
next
  case (Cons first rest)
  obtain r evs' e' where S: "Save e (first # rest) = (r, evs', e')"
    by (cases "Save e (first # rest)") auto
  show ?thesis
  proof (cases r)
    case (Some err)
    with S Save_rejected [of e "first # rest" err evs' e'] inv Cons show ?thesis by simp
  next
    case None
    let ?k = "event_key first"
    let ?n = "length (eventsInOrder e)"
    note A = Save_accepted [OF S [unfolded None]]
    from A(4) have V: "ValidateEvents (AggregateID first) (length (bucket e ?k)) (first # rest) = None"
      by (simp only: store_inv_current [OF inv])
    note acc = ValidateEvents_accepts [OF V]
    have len: "length evs' = Suc (length rest)"
      by (simp add: A(1))
    have keys: "\<forall>ev \<in> set evs'. event_key ev = ?k"
    proof -
      have "\<forall>ev \<in> set (first # rest). event_key ev = ?k"
        using acc(2) by (auto simp: list_all_iff event_key_def)
      then have "\<forall>x \<in> set (map event_key (first # rest)). x = ?k" by auto
      then have "\<forall>x \<in> set (map event_key evs'). x = ?k"
        by (simp only: A(1) stamp_key)
      then show ?thesis by auto
    qed
    have b: "bucket e' k = (if k = ?k then bucket e ?k @ evs' else bucket e k)" for k
      by (simp add: bucket_def A(3))
    have g: "map GlobalVersion (eventsInOrder e') = [1..<Suc (length (eventsInOrder e'))]"
    proof -
      have "map GlobalVersion (eventsInOrder e') = [1..<Suc ?n] @ [Suc ?n..<Suc ?n + length (first # rest)]"
        by (simp only: A(2) A(1) map_append stamp_GlobalVersion store_inv_GlobalVersion [OF inv])
      also have "\<dots> = [1..<Suc (?n + length (first # rest))]"
        by (rule upt_append_Suc)
      also have "\<dots> = [1..<Suc (length (eventsInOrder e'))]"
        by (simp only: A(2) length_append len list.size) simp
      finally show ?thesis .
    qed
    have f: "bucket e' k = filter (\<lambda>ev. event_key ev = k) (eventsInOrder e')" for k
    proof (cases "k = ?k")
      case True
      have "filter (\<lambda>ev. event_key ev = ?k) evs' = evs'"
        using keys by (simp add: filter_id_conv)
      with True show ?thesis by (simp add: b A(2) store_inv_bucket [OF inv])
    next
      case False
      have "filter (\<lambda>ev. event_key ev = k) evs' = []"
        using keys False by (auto simp: filter_empty_conv)
      with False show ?thesis by (simp add: b A(2) store_inv_bucket [OF inv])
    qed
    have v: "map Version (bucket e' k) = [1..<Suc (length (bucket e' k))]" for k
    proof (cases "k = ?k")
      case True
      let ?m = "length (bucket e ?k)"
      have bk: "bucket e' k = bucket e ?k @ evs'"
        using True by (simp add: b)
      have "map Version evs' = [Suc ?m..<Suc ?m + Suc (length rest)]"
        using acc(1) by (simp only: A(1) stamp_Version)
      then have "map Version (bucket e' k) = [1..<Suc ?m] @ [Suc ?m..<Suc ?m + Suc (length rest)]"
        by (simp only: bk map_append store_inv_Version [OF inv])
      also have "\<dots> = [1..<Suc (?m + Suc (length rest))]"
        by (rule upt_append_Suc)
      also have "\<dots> = [1..<Suc (length (bucket e' k))]"
        by (simp only: bk length_append len)
      finally show ?thesis .
    next
      case False
      then have "bucket e' k = bucket e k" by (simp add: b)
      then show ?thesis by (simp only: store_inv_Version [OF inv])
    qed
    from g f v have "store_inv e'" unfolding store_inv_def by blast
    with S Cons show ?thesis by simp
  qed
qed

lemma store_inv_saves: "store_inv e \<Longrightarrow> store_inv (saves e batches)"
  by (induction batches arbitrary: e) (auto intro: store_inv_Save)

section \<open>The in-memory store: GlobalVersion\<close>

text \<open>
  Claim C4. Take the store reached from \<open>Create\<close> by any sequence of \<open>Save\<close> calls. The
  GlobalVersions of its global list are 1, 2, ..., in commit order. A further \<open>Save\<close> that
  succeeds appends its events to the global list, gives them the next consecutive
  GlobalVersions, and the list stays 1, 2, ... and strictly increasing; a \<open>Save\<close> that fails
  leaves the caller's events and the store as they were, so no GlobalVersion is assigned
  before the commit.
\<close>

theorem Save_GlobalVersion:
  assumes "Save (saves Create batches) evs = (r, evs', e')"
  shows "map GlobalVersion (eventsInOrder (saves Create batches))
           = [1..<Suc (length (eventsInOrder (saves Create batches)))]
       \<and> (case r of
            None \<Rightarrow>
              eventsInOrder e' = eventsInOrder (saves Create batches) @ evs'
              \<and> map GlobalVersion evs'
                  = [Suc (length (eventsInOrder (saves Create batches)))..<
                     Suc (length (eventsInOrder (saves Create batches))) + length evs]
              \<and> map GlobalVersion (eventsInOrder e') = [1..<Suc (length (eventsInOrder e'))]
              \<and> sorted_wrt (<) (map GlobalVersion (eventsInOrder e'))
          | Some err \<Rightarrow> evs' = evs \<and> e' = saves Create batches)"
proof -
  let ?e = "saves Create batches"
  have inv: "store_inv ?e"
    by (rule store_inv_saves [OF store_inv_Create])
  have inv': "store_inv e'"
    using store_inv_Save [OF inv, of evs] assms by simp
  have g': "map GlobalVersion (eventsInOrder e') = [1..<Suc (length (eventsInOrder e'))]"
    by (rule store_inv_GlobalVersion [OF inv'])
  have s': "sorted_wrt (<) (map GlobalVersion (eventsInOrder e'))"
    by (simp only: g' sorted_wrt_upt)
  have second: "(case r of
            None \<Rightarrow>
              eventsInOrder e' = eventsInOrder ?e @ evs'
              \<and> map GlobalVersion evs'
                  = [Suc (length (eventsInOrder ?e))..<Suc (length (eventsInOrder ?e)) + length evs]
              \<and> map GlobalVersion (eventsInOrder e') = [1..<Suc (length (eventsInOrder e'))]
              \<and> sorted_wrt (<) (map GlobalVersion (eventsInOrder e'))
          | Some err \<Rightarrow> evs' = evs \<and> e' = ?e)"
  proof (cases r)
    case (Some err)
    with assms Save_rejected [of ?e evs err evs' e'] show ?thesis by simp
  next
    case None
    show ?thesis
    proof (cases evs)
      case Nil
      with assms None g' s' show ?thesis by (simp del: upt_Suc)
    next
      case (Cons first rest)
      note A = Save_accepted [OF assms [unfolded None Cons]]
      have "map GlobalVersion evs'
              = [Suc (length (eventsInOrder ?e))..<Suc (length (eventsInOrder ?e)) + length evs]"
        by (simp only: A(1) stamp_GlobalVersion Cons)
      with A(2) g' s' None show ?thesis by (simp del: upt_Suc)
    qed
  qed
  with store_inv_GlobalVersion [OF inv] show ?thesis by blast
qed

theorem Save_GlobalVersion_witness:
  "fst (Save (saves Create [[person_event 1 (Born ''Alice''), person_event 2 AgedOneYear]])
          [person_event 3 AgedOneYear]) = None
   \<and> map GlobalVersion
        (fst (snd (Save (saves Create [[person_event 1 (Born ''Alice''), person_event 2 AgedOneYear]])
          [person_event 3 AgedOneYear]))) = [3]"
  using Save_GlobalVersion [of "[[person_event 1 (Born ''Alice''), person_event 2 AgedOneYear]]"
      "[person_event 3 AgedOneYear]"
      "fst (Save (saves Create [[person_event 1 (Born ''Alice''), person_event 2 AgedOneYear]])
          [person_event 3 AgedOneYear])"
      "fst (snd (Save (saves Create [[person_event 1 (Born ''Alice''), person_event 2 AgedOneYear]])
          [person_event 3 AgedOneYear]))"
      "snd (snd (Save (saves Create [[person_event 1 (Born ''Alice''), person_event 2 AgedOneYear]])
          [person_event 3 AgedOneYear]))"]
  by (simp add: Save_def Create_def person_event_def ValidateEvents_def
        ValidateEventsNoVersionCheck_def same_aggregate_def aggregateKey_def bucket_def Let_def)

section \<open>The in-memory store: the iterator\<close>

lemma Next_exhausted:
  "Next \<lparr>iter_events = es, iter_position = length es\<rparr>
     = (Inl ErrNoMoreEvents, \<lparr>iter_events = es, iter_position = length es\<rparr>)"
  by (simp add: Next_def)

lemma nexts_exhausted:
  "nexts k \<lparr>iter_events = es, iter_position = length es\<rparr>
     = (replicate k (Inl ErrNoMoreEvents), \<lparr>iter_events = es, iter_position = length es\<rparr>)"
  by (induction k) (simp_all add: Next_exhausted)

lemma nexts_add:
  "nexts (m + n) i =
     (case nexts m i of (rs, i') \<Rightarrow> (case nexts n i' of (rs', i'') \<Rightarrow> (rs @ rs', i'')))"
  by (induction m arbitrary: i) (auto split: prod.splits)

lemma nexts_events:
  "p + m = length es \<Longrightarrow>
     nexts m \<lparr>iter_events = es, iter_position = p\<rparr>
       = (map Inr (drop p es), \<lparr>iter_events = es, iter_position = length es\<rparr>)"
proof (induction m arbitrary: p)
  case 0
  then show ?case by simp
next
  case (Suc m)
  then have p: "p < length es" and q: "Suc p + m = length es" by simp_all
  have "Next \<lparr>iter_events = es, iter_position = p\<rparr>
          = (Inr (es ! p), \<lparr>iter_events = es, iter_position = Suc p\<rparr>)"
    using p by (simp add: Next_def)
  moreover have "drop p es = es ! p # drop (Suc p) es"
    using Cons_nth_drop_Suc [OF p] by simp
  ultimately show ?case
    using Suc.IH [OF q] by simp
qed

text \<open>
  Claim C3, as amended. For the iterator returned by \<open>Get\<close>, whose events are the matching
  events of the bucket, the first calls of \<open>Next\<close> yield these events once each and in
  order, and every later call fails with \<open>ErrNoMoreEvents\<close> and leaves the iterator at the
  end: after \<open>n\<close> events, \<open>k\<close> further calls give \<open>k\<close> times the sentinel.
\<close>

theorem Next_after_Get:
  assumes "Get e ident aggregateType afterVersion = Inr it"
  shows "iter_events it
           = filter (\<lambda>ev. afterVersion < Version ev) (bucket e (aggregateKey aggregateType ident))
       \<and> nexts (length (iter_events it) + k) it
           = (map Inr (iter_events it) @ replicate k (Inl ErrNoMoreEvents),
              it\<lparr>iter_position := length (iter_events it)\<rparr>)"
proof -
  let ?es = "filter (\<lambda>ev. afterVersion < Version ev) (bucket e (aggregateKey aggregateType ident))"
  from assms have it: "it = \<lparr>iter_events = ?es, iter_position = 0\<rparr>"
    by (auto simp: Get_def Let_def split: if_splits)
  have "nexts (length ?es + k) \<lparr>iter_events = ?es, iter_position = 0\<rparr>
          = (map Inr ?es @ replicate k (Inl ErrNoMoreEvents),
             \<lparr>iter_events = ?es, iter_position = length ?es\<rparr>)"
    using nexts_events [of 0 "length ?es" ?es]
    by (simp only: nexts_add) (simp add: nexts_exhausted)
  then show ?thesis by (simp add: it)
qed

theorem Next_after_Get_witness:
  "Get (saves Create [[person_event 1 (Born ''Alice''), person_event 2 AgedOneYear]])
       ''123'' ''Person'' 1
     = Inr \<lparr>iter_events = [(person_event 2 AgedOneYear)\<lparr>GlobalVersion := 2\<rparr>], iter_position = 0\<rparr>
   \<and> nexts (1 + 2)
        \<lparr>iter_events = [(person_event 2 AgedOneYear)\<lparr>GlobalVersion := 2\<rparr>], iter_position = 0\<rparr>
      = ([Inr ((person_event 2 AgedOneYear)\<lparr>GlobalVersion := 2\<rparr>),
          Inl ErrNoMoreEvents, Inl ErrNoMoreEvents],
         \<lparr>iter_events = [(person_event 2 AgedOneYear)\<lparr>GlobalVersion := 2\<rparr>], iter_position = 1\<rparr>)"
proof -
  have g: "Get (saves Create [[person_event 1 (Born ''Alice''), person_event 2 AgedOneYear]])
       ''123'' ''Person'' 1
     = Inr \<lparr>iter_events = [(person_event 2 AgedOneYear)\<lparr>GlobalVersion := 2\<rparr>], iter_position = 0\<rparr>"
    by (simp add: Get_def Save_def Create_def person_event_def ValidateEvents_def
        ValidateEventsNoVersionCheck_def same_aggregate_def aggregateKey_def bucket_def Let_def)
  have r: "replicate 2 x = [x, x]" for x :: "error + (PersonEvent, string) Event"
    by (simp add: numeral_2_eq_2)
  from Next_after_Get [OF g, of 2]
  have "nexts (length (iter_events
            \<lparr>iter_events = [(person_event 2 AgedOneYear)\<lparr>GlobalVersion := 2\<rparr>], iter_position = 0\<rparr>) + 2)
          \<lparr>iter_events = [(person_event 2 AgedOneYear)\<lparr>GlobalVersion := 2\<rparr>], iter_position = 0\<rparr>
        = (map Inr (iter_events
            \<lparr>iter_events = [(person_event 2 AgedOneYear)\<lparr>GlobalVersion := 2\<rparr>], iter_position = 0\<rparr>)
             @ replicate 2 (Inl ErrNoMoreEvents),
           \<lparr>iter_events = [(person_event 2 AgedOneYear)\<lparr>GlobalVersion := 2\<rparr>], iter_position = 0\<rparr>
             \<lparr>iter_position := length (iter_events
            \<lparr>iter_events = [(person_event 2 AgedOneYear)\<lparr>GlobalVersion := 2\<rparr>], iter_position = 0\<rparr>)\<rparr>)"
    by (rule conjunct2)
  then have n: "nexts (1 + 2)
        \<lparr>iter_events = [(person_event 2 AgedOneYear)\<lparr>GlobalVersion := 2\<rparr>], iter_position = 0\<rparr>
      = ([Inr ((person_event 2 AgedOneYear)\<lparr>GlobalVersion := 2\<rparr>),
          Inl ErrNoMoreEvents, Inl ErrNoMoreEvents],
         \<lparr>iter_events = [(person_event 2 AgedOneYear)\<lparr>GlobalVersion := 2\<rparr>], iter_position = 1\<rparr>)"
    by (simp add: r)
  from g n show ?thesis by (rule conjI)
qed

text \<open>
  Claim C3 as stated fails: the sentinel is not returned exactly once. On the iterator over
  one stored event, the second and the third call of \<open>Next\<close> both fail with
  \<open>ErrNoMoreEvents\<close>.
\<close>

theorem Next_sentinel_repeats:
  "(case Get (saves Create [[person_event 1 (Born ''Alice'')]]) ''123'' ''Person'' 0 of
      Inl err \<Rightarrow> []
    | Inr it \<Rightarrow> fst (nexts 3 it))
   = [Inr ((person_event 1 (Born ''Alice''))\<lparr>GlobalVersion := 1\<rparr>),
      Inl ErrNoMoreEvents, Inl ErrNoMoreEvents]"
  by (simp add: Get_def Save_def Create_def person_event_def ValidateEvents_def
        ValidateEventsNoVersionCheck_def same_aggregate_def aggregateKey_def bucket_def Let_def
        Next_def numeral_3_eq_3)

section \<open>The in-memory store: Save followed by Get\<close>

lemma store_inv_positive:
  assumes "store_inv e"
  shows "filter (\<lambda>ev. 0 < Version ev) (bucket e k) = bucket e k"
proof -
  have "\<forall>v \<in> set (map Version (bucket e k)). 0 < v"
    by (simp only: store_inv_Version [OF assms]) auto
  then show ?thesis by (simp add: filter_id_conv)
qed

lemma Get_all:
  assumes "store_inv e"
  shows "(case Get e ident aggregateType 0 of Inl err \<Rightarrow> [] | Inr it \<Rightarrow> iter_events it)
           = bucket e (aggregateKey aggregateType ident)"
  by (cases "bucket e (aggregateKey aggregateType ident) = []")
     (simp_all add: Get_def store_inv_positive [OF assms])

text \<open>
  In a store reached from \<open>Create\<close> by \<open>Save\<close> calls, when \<open>Save\<close> accepts a non-empty
  batch, \<open>Get\<close> for the identifier and type of the batch with afterVersion 0 succeeds and
  returns the events it returned before the call (none when it failed with \<open>ErrNoEvents\<close>)
  followed by the events of the batch, in strictly ascending Version.
\<close>

lemma Save_Get_appended:
  assumes "Save (saves Create batches) (first # rest) = (None, evs', e')"
  shows "let prior = (case Get (saves Create batches) (AggregateID first) (AggregateType first) 0 of
                        Inl err \<Rightarrow> [] | Inr it \<Rightarrow> iter_events it)
         in Get e' (AggregateID first) (AggregateType first) 0
              = Inr \<lparr>iter_events = prior @ evs', iter_position = 0\<rparr>
            \<and> map Data (prior @ evs') = map Data prior @ map Data (first # rest)
            \<and> sorted_wrt (<) (map Version (prior @ evs'))"
proof -
  let ?e = "saves Create batches"
  let ?k = "aggregateKey (AggregateType first) (AggregateID first)"
  have inv: "store_inv ?e"
    by (rule store_inv_saves [OF store_inv_Create])
  have inv': "store_inv e'"
    using store_inv_Save [OF inv, of "first # rest"] assms by simp
  note A = Save_accepted [OF assms]
  have prior: "(case Get ?e (AggregateID first) (AggregateType first) 0 of
                  Inl err \<Rightarrow> [] | Inr it \<Rightarrow> iter_events it) = bucket ?e ?k"
    by (rule Get_all [OF inv])
  have b: "bucket e' ?k = bucket ?e ?k @ evs'"
    by (simp add: bucket_def A(3) event_key_def)
  have ne: "bucket ?e ?k @ evs' \<noteq> []"
    by (simp add: A(1))
  have "filter (\<lambda>ev. 0 < Version ev) (bucket e' ?k) = bucket ?e ?k @ evs'"
    using store_inv_positive [OF inv', of ?k] by (simp only: b)
  then have g: "Get e' (AggregateID first) (AggregateType first) 0
             = Inr \<lparr>iter_events = bucket ?e ?k @ evs', iter_position = 0\<rparr>"
    using ne by (simp add: Get_def)
  have d: "map Data (bucket ?e ?k @ evs') = map Data (bucket ?e ?k) @ map Data (first # rest)"
    by (simp only: map_append A(1) stamp_Data)
  have "sorted_wrt (<) (map Version (bucket e' ?k))"
    by (simp only: store_inv_Version [OF inv'] sorted_wrt_upt)
  then have s: "sorted_wrt (<) (map Version (bucket ?e ?k @ evs'))"
    by (simp only: b)
  from g d s show ?thesis by (simp only: prior Let_def)
qed


section \<open>The in-memory store: what Get returns\<close>

lemma Get_by_key:
  assumes "store_inv e"
  shows "Get e ident aggregateType afterVersion =
           (let matching = filter (\<lambda>ev. event_key ev = aggregateKey aggregateType ident
                                        \<and> afterVersion < Version ev) (eventsInOrder e)
            in if matching = [] then Inl ErrNoEvents
               else Inr \<lparr>iter_events = matching, iter_position = 0\<rparr>)"
  by (simp add: Get_def Let_def store_inv_bucket [OF assms] conj_commute)

lemma Get_without_collision:
  assumes inv: "store_inv e"
    and nc: "\<forall>ev \<in> set (eventsInOrder e).
               event_key ev = aggregateKey aggregateType ident
                 \<longrightarrow> AggregateType ev = aggregateType \<and> AggregateID ev = ident"
  shows "Get e ident aggregateType afterVersion =
           (let matching = filter (\<lambda>ev. AggregateID ev = ident \<and> AggregateType ev = aggregateType
                                        \<and> afterVersion < Version ev) (eventsInOrder e)
            in if matching = [] then Inl ErrNoEvents
               else Inr \<lparr>iter_events = matching, iter_position = 0\<rparr>)"
proof -
  have "filter (\<lambda>ev. event_key ev = aggregateKey aggregateType ident \<and> afterVersion < Version ev)
          (eventsInOrder e)
        = filter (\<lambda>ev. AggregateID ev = ident \<and> AggregateType ev = aggregateType
                        \<and> afterVersion < Version ev) (eventsInOrder e)"
    using nc by (intro filter_cong) (auto simp: event_key_def)
  then show ?thesis by (simp only: Get_by_key [OF inv])
qed

lemma Get_ascending:
  assumes "store_inv e" and "Get e ident aggregateType afterVersion = Inr it"
  shows "sorted_wrt (<) (map Version (iter_events it))"
proof -
  let ?b = "bucket e (aggregateKey aggregateType ident)"
  have "sorted_wrt (<) (map Version ?b)"
    by (simp only: store_inv_Version [OF assms(1)] sorted_wrt_upt)
  then have "sorted_wrt (\<lambda>x y. Version x < Version y) ?b"
    by (simp add: sorted_wrt_map)
  then have "sorted_wrt (\<lambda>x y. Version x < Version y) (filter (\<lambda>ev. afterVersion < Version ev) ?b)"
    by (rule sorted_wrt_filter)
  moreover from assms(2) have "iter_events it = filter (\<lambda>ev. afterVersion < Version ev) ?b"
    by (auto simp: Get_def Let_def split: if_splits)
  ultimately show ?thesis by (simp add: sorted_wrt_map)
qed

text \<open>
  Claim C6 at an input where the code departs from it. The store holds one event, of the
  aggregate with type \<^verbatim>\<open>a_b\<close> and identifier \<^verbatim>\<open>c\<close>. \<open>Get\<close> for the aggregate with type
  \<^verbatim>\<open>a\<close> and identifier \<^verbatim>\<open>b_c\<close>, of which nothing is stored, returns an iterator over
  that event: both aggregates have the bucket name \<^verbatim>\<open>a_b_c\<close>.
\<close>

theorem Get_foreign_aggregate:
  "Get (snd (snd (Save Create [line_event]))) ''b_c'' ''a'' 0
     = Inr \<lparr>iter_events = [line_event\<lparr>GlobalVersion := 1\<rparr>], iter_position = 0\<rparr>
   \<and> AggregateType (line_event\<lparr>GlobalVersion := 1\<rparr>) = ''a_b''
   \<and> AggregateID (line_event\<lparr>GlobalVersion := 1\<rparr>) = ''c''"
  by (simp add: Get_def Save_def Create_def line_event_def ValidateEvents_def
        ValidateEventsNoVersionCheck_def same_aggregate_def aggregateKey_def bucket_def Let_def)

text \<open>
  Claim C9 at an input where the code departs from it. The store holds one event, of the
  aggregate \<^verbatim>\<open>Order_Line\<close>/\<^verbatim>\<open>7\<close>; no stored event has the type \<^verbatim>\<open>Order\<close> and the
  identifier \<^verbatim>\<open>Line_7\<close>, and yet \<open>Get\<close> for that aggregate does not fail with
  \<open>ErrNoEvents\<close>.
\<close>

theorem Get_NoEvents_collision:
  "filter (\<lambda>ev. AggregateID ev = ''Line_7'' \<and> AggregateType ev = ''Order'')
      (eventsInOrder (snd (snd (Save Create [order_line_event])))) = []
   \<and> Get (snd (snd (Save Create [order_line_event]))) ''Line_7'' ''Order'' 0 \<noteq> Inl ErrNoEvents"
  by (simp add: Get_def Save_def Create_def order_line_event_def ValidateEvents_def
        ValidateEventsNoVersionCheck_def same_aggregate_def aggregateKey_def bucket_def Let_def)

section \<open>Event.Reason\<close>

lemma Reason_nil: "TypeOf (Data e) = None \<Longrightarrow> Reason TypeOf e = Inr []"
  by (simp add: Reason_def)

lemma Reason_pointer:
  "TypeOf (Data e) = Some (PtrTo (Named n)) \<Longrightarrow> Reason TypeOf e = Inr n"
  by (simp add: Reason_def)

lemma Reason_named:
  "TypeOf (Data e) = Some (Named n) \<Longrightarrow> \<exists>msg. Reason TypeOf e = Inl (Panic msg)"
  by (simp add: Reason_def)

text \<open>
  Claim C10 at an input where the code departs from it. For an event whose payload is the
  struct \<^verbatim>\<open>Born{Name: "Alice"}\<close> itself (the payload type instantiated with a non-pointer
  type), \<open>Reason\<close> does not return: \<^verbatim>\<open>Elem\<close> panics on the struct type. For the pointer
  payload \<^verbatim>\<open>&Born{Name: "Alice"}\<close> it returns the name \<^verbatim>\<open>Born\<close>.
\<close>

theorem Reason_panics_on_value:
  "Reason TypeOf_value (person_event 1 (Born ''Alice''))
     = Inl (Panic ''reflect: Elem of invalid type'')
   \<and> Reason TypeOf_pointer (person_event 1 (Born ''Alice'')) = Inr ''Born''"
  by (simp add: Reason_def TypeOf_value_def TypeOf_pointer_def person_event_def)

section \<open>SnapshotHandler.Save\<close>

lemma validate_cases:
  "validate root =
     (if root_ID root = [] then Some ErrEmptyID
      else if root_Events root \<noteq> [] then Some ErrUnsavedEvents else None)"
  by (simp add: validate_def UnsavedEvents_def)

text \<open>The calls on an aggregate root keep it \<open>identified\<close>: \<open>TrackChange\<close> resolves the
  identity before it appends to the buffer, and \<open>SetID\<close> fails once an event is tracked.\<close>

lemma identified_new_root: "identified new_root"
  by (simp add: identified_def new_root_def)

lemma identified_call:
  "identified root \<Longrightarrow> identified_snapshot c \<Longrightarrow> identified (call c root)"
  by (cases c)
     (auto simp: identified_def SetID_def TrackChange_def BuildFromHistory_def saved_def
        setInternals_def Let_def split: list.splits)

lemma identified_calls:
  "identified root \<Longrightarrow> list_all identified_snapshot cs \<Longrightarrow> identified (calls cs root)"
  by (induction cs arbitrary: root) (simp_all add: identified_call)

lemma calls_identified:
  "list_all identified_snapshot cs \<Longrightarrow> identified (calls cs new_root)"
  by (rule identified_calls [OF identified_new_root])

text \<open>On an identified root the two tests of \<open>validate\<close> can be read in either order.\<close>

lemma validate_identified:
  assumes "identified root"
  shows "validate root =
           (if UnsavedEvents root then Some ErrUnsavedEvents
            else if root_ID root = [] then Some ErrEmptyID else None)"
  using assms by (auto simp: validate_def identified_def UnsavedEvents_def)

lemma SnapshotHandler_Save_refused:
  assumes "validate root = Some err"
    and "i = IsSnapshotAggregate root t m \<or> i = IsAggregate root t x"
  shows "SnapshotHandler_Save store_Save Marshal ss i = (Some err, ss)"
  using assms
  by (auto simp: SnapshotHandler_Save_def saveSnapshotAggregate_def saveAggregate_def)

text \<open>
  Claim C8. For every aggregate passed to \<open>SnapshotHandler_Save\<close>, whichever of the two
  aggregate interfaces it has, and for every snapshot store and serializer: the call
  fails with \<open>ErrUnsavedEvents\<close> whenever the unsaved-event buffer is non-empty, and with
  \<open>ErrEmptyID\<close> whenever the identity is unset; in both cases the snapshot store is left
  as it was, whatever its \<open>Save\<close> would do, so \<open>Save\<close> of the store is not invoked. The
  aggregates are those whose root is \<open>identified\<close>, which every root is that was
  constructed and then went through any calls of \<open>SetID\<close>, \<open>TrackChange\<close>,
  \<open>BuildFromHistory\<close>, saves of the repository and restored snapshots
  (\<open>calls_identified\<close>).
\<close>

theorem SnapshotHandler_Save_validate:
  assumes "identified root"
    and "i = IsSnapshotAggregate root t m \<or> i = IsAggregate root t x"
  shows "(UnsavedEvents root \<longrightarrow>
            SnapshotHandler_Save store_Save Marshal ss i = (Some ErrUnsavedEvents, ss))
       \<and> (root_ID root = [] \<longrightarrow>
            SnapshotHandler_Save store_Save Marshal ss i = (Some ErrEmptyID, ss))"
proof (intro conjI impI)
  assume "UnsavedEvents root"
  then have "validate root = Some ErrUnsavedEvents"
    by (simp add: validate_identified [OF assms(1)])
  then show "SnapshotHandler_Save store_Save Marshal ss i = (Some ErrUnsavedEvents, ss)"
    using assms(2) by (rule SnapshotHandler_Save_refused)
next
  assume "root_ID root = []"
  then have "validate root = Some ErrEmptyID"
    by (simp add: validate_def)
  then show "SnapshotHandler_Save store_Save Marshal ss i = (Some ErrEmptyID, ss)"
    using assms(2) by (rule SnapshotHandler_Save_refused)
qed

theorem SnapshotHandler_Save_validate_witness:
  "calls [CallSetID ''123'', CallTrackChange ''generated'' ''Person'' 1000 (Born ''Alice'') None]
       new_root = person_root ''123''
   \<and> identified (person_root ''123'')
   \<and> UnsavedEvents (person_root ''123'')
   \<and> SnapshotHandler_Save log_Save Inr []
        (IsAggregate (person_root ''123'') (PtrTo (Named ''Person'')) ''Alice'')
      = (Some ErrUnsavedEvents, [])
   \<and> calls [CallTrackChange [] ''Person'' 1000 (Born ''Alice'') None] new_root
       = (new_root :: (PersonEvent, string) AggregateRoot)
   \<and> identified (new_root :: (PersonEvent, string) AggregateRoot)
   \<and> root_ID (new_root :: (PersonEvent, string) AggregateRoot) = []
   \<and> SnapshotHandler_Save log_Save Inr []
        (IsAggregate (new_root :: (PersonEvent, string) AggregateRoot)
           (PtrTo (Named ''Person'')) ''Alice'')
      = (Some ErrEmptyID, [])"
proof -
  let ?new = "new_root :: (PersonEvent, string) AggregateRoot"
  have r: "calls [CallSetID ''123'',
                  CallTrackChange ''generated'' ''Person'' 1000 (Born ''Alice'') None] new_root
             = person_root ''123''"
    by (simp add: person_root_def person_event_def new_root_def SetID_def TrackChange_def Let_def)
  have i: "identified (person_root ''123'')"
    by (simp add: identified_def person_root_def)
  have u: "UnsavedEvents (person_root ''123'')"
    by (simp add: person_root_def UnsavedEvents_def)
  have r': "calls [CallTrackChange [] ''Person'' 1000 (Born ''Alice'') None] ?new = ?new"
    by (simp add: new_root_def TrackChange_def Let_def)
  have i': "identified ?new"
    by (simp add: identified_def new_root_def)
  have e: "root_ID ?new = []"
    by (simp add: new_root_def)
  from SnapshotHandler_Save_validate [OF i, of
      "IsAggregate (person_root ''123'') (PtrTo (Named ''Person'')) ''Alice''"
      "PtrTo (Named ''Person'')" "\<lambda>f. f ''Alice''" "''Alice''" log_Save Inr "[]"] u
  have a: "SnapshotHandler_Save log_Save Inr []
        (IsAggregate (person_root ''123'') (PtrTo (Named ''Person'')) ''Alice'')
      = (Some ErrUnsavedEvents, [])"
    by simp
  from SnapshotHandler_Save_validate [OF i', of
      "IsAggregate ?new (PtrTo (Named ''Person'')) ''Alice''"
      "PtrTo (Named ''Person'')" "\<lambda>f. f ''Alice''" "''Alice''" log_Save Inr "[]"] e
  have b: "SnapshotHandler_Save log_Save Inr []
        (IsAggregate ?new (PtrTo (Named ''Person'')) ''Alice'')
      = (Some ErrEmptyID, [])"
    by simp
  from r i u a r' i' e b show ?thesis by (intro conjI)
qed

text \<open>The same for the roots that the calls build, stated on the calls.\<close>

lemma SnapshotHandler_Save_after_calls:
  assumes "root = calls cs new_root"
    and "list_all identified_snapshot cs"
    and "i = IsSnapshotAggregate root t m \<or> i = IsAggregate root t x"
  shows "(UnsavedEvents root \<longrightarrow>
            SnapshotHandler_Save store_Save Marshal ss i = (Some ErrUnsavedEvents, ss))
       \<and> (root_ID root = [] \<longrightarrow>
            SnapshotHandler_Save store_Save Marshal ss i = (Some ErrEmptyID, ss))"
proof (intro conjI impI)
  have id: "identified root"
    unfolding assms(1) using assms(2) by (rule calls_identified)
  {
    assume "UnsavedEvents root"
    then have "validate root = Some ErrUnsavedEvents"
      by (simp add: validate_identified [OF id])
    then show "SnapshotHandler_Save store_Save Marshal ss i = (Some ErrUnsavedEvents, ss)"
      using assms(3) by (rule SnapshotHandler_Save_refused)
  }
  {
    assume "root_ID root = []"
    then have "validate root = Some ErrEmptyID"
      by (simp add: validate_def)
    then show "SnapshotHandler_Save store_Save Marshal ss i = (Some ErrEmptyID, ss)"
      using assms(3) by (rule SnapshotHandler_Save_refused)
  }
qed

section \<open>The Event Store DB backend: GlobalVersion\<close>

lemma esdb_Save_accepted:
  assumes "esdb_Save ser contentType TypeOf AppendToStream c (first # rest) = (None, events', c')"
  shows "\<exists>eventDatas wr.
           esdbEvents ser contentType TypeOf (first # rest) = Inr eventDatas
           \<and> AppendToStream c (stream (AggregateType first) (AggregateID first))
                 (expectedRevision (Version first)) eventDatas = (Inr wr, c')
           \<and> events' = map (\<lambda>event. event\<lparr>GlobalVersion := CommitPosition wr\<rparr>) (first # rest)"
  using assms
  by (auto simp: esdb_Save_def Let_def split: option.splits sum.splits prod.splits)

text \<open>
  Claim C1, as amended. For every serializer and every client: when \<open>esdb_Save\<close> commits a
  non-empty batch, the append returned one write result, and every event of the batch is
  assigned the commit position of that write result as its GlobalVersion, so the events of
  one batch all carry the same GlobalVersion.
\<close>

theorem esdb_Save_GlobalVersion:
  assumes "esdb_Save ser contentType TypeOf AppendToStream c (first # rest) = (None, events', c')"
  shows "\<exists>eventDatas wr.
           AppendToStream c (stream (AggregateType first) (AggregateID first))
               (expectedRevision (Version first)) eventDatas = (Inr wr, c')
           \<and> events' = map (\<lambda>event. event\<lparr>GlobalVersion := CommitPosition wr\<rparr>) (first # rest)
           \<and> map GlobalVersion events' = replicate (length (first # rest)) (CommitPosition wr)"
proof -
  from esdb_Save_accepted [OF assms] obtain eventDatas wr where
    a: "AppendToStream c (stream (AggregateType first) (AggregateID first))
          (expectedRevision (Version first)) eventDatas = (Inr wr, c')"
    and e: "events' = map (\<lambda>event. event\<lparr>GlobalVersion := CommitPosition wr\<rparr>) (first # rest)"
    by blast
  have "map GlobalVersion (map (\<lambda>event. event\<lparr>GlobalVersion := CommitPosition wr\<rparr>) evs)
          = replicate (length evs) (CommitPosition wr)" for evs :: "('a, 'b) Event list"
    by (induction evs) simp_all
  with a e show ?thesis by blast
qed

lemma esdb_Save_example:
  "esdb_Save person_serializer ContentTypeJson TypeOf_pointer append_at 7
       [person_event 1 (Born ''Alice''), person_event 2 AgedOneYear]
     = (None,
        [(person_event 1 (Born ''Alice''))\<lparr>GlobalVersion := 7\<rparr>,
         (person_event 2 AgedOneYear)\<lparr>GlobalVersion := 7\<rparr>],
        9)"
  by (simp add: esdb_Save_def person_serializer_def TypeOf_pointer_def append_at_def
        person_event_def ValidateEventsNoVersionCheck_def same_aggregate_def Reason_def
        Let_def)


theorem esdb_Save_GlobalVersion_witness:
  "esdb_Save person_serializer ContentTypeJson TypeOf_pointer append_at 7
       [person_event 1 (Born ''Alice''), person_event 2 AgedOneYear]
     = (None,
        [(person_event 1 (Born ''Alice''))\<lparr>GlobalVersion := 7\<rparr>,
         (person_event 2 AgedOneYear)\<lparr>GlobalVersion := 7\<rparr>],
        9)
   \<and> (\<exists>eventDatas wr.
         append_at 7 (stream (AggregateType (person_event 1 (Born ''Alice'')))
                        (AggregateID (person_event 1 (Born ''Alice''))))
             (expectedRevision (Version (person_event 1 (Born ''Alice'')))) eventDatas
           = (Inr wr, 9)
         \<and> map GlobalVersion
             [(person_event 1 (Born ''Alice''))\<lparr>GlobalVersion := 7\<rparr>,
              (person_event 2 AgedOneYear)\<lparr>GlobalVersion := 7\<rparr>]
           = replicate (length [person_event 1 (Born ''Alice''), person_event 2 AgedOneYear])
               (CommitPosition wr))"
  using esdb_Save_example esdb_Save_GlobalVersion [OF esdb_Save_example] by blast

text \<open>
  Claim C1 as stated fails: a committed batch of two events is assigned the GlobalVersions
  7 and 7, which are not pairwise distinct.
\<close>

theorem esdb_Save_GlobalVersion_shared:
  "fst (esdb_Save person_serializer ContentTypeJson TypeOf_pointer append_at 7
          [person_event 1 (Born ''Alice''), person_event 2 AgedOneYear]) = None
   \<and> map GlobalVersion
        (fst (snd (esdb_Save person_serializer ContentTypeJson TypeOf_pointer append_at 7
          [person_event 1 (Born ''Alice''), person_event 2 AgedOneYear]))) = [7, 7]
   \<and> \<not> distinct (map GlobalVersion
        (fst (snd (esdb_Save person_serializer ContentTypeJson TypeOf_pointer append_at 7
          [person_event 1 (Born ''Alice''), person_event 2 AgedOneYear]))))"
  unfolding esdb_Save_example by simp

section \<open>The Event Store DB backend: Save followed by Next\<close>

lemma Split_no_separator: "sep \<notin> set s \<Longrightarrow> Split s sep = [s]"
  by (induction s) auto

lemma Split_stream:
  "sep \<notin> set a \<Longrightarrow> Split (a @ sep # b) sep = a # Split b sep"
  by (induction a) auto

lemma Split_stream_name:
  assumes "streamSeparator \<notin> set aggregateType" and "streamSeparator \<notin> set aggregateID"
  shows "Split (stream aggregateType aggregateID) streamSeparator = [aggregateType, aggregateID]"
  using assms by (simp add: stream_def Split_stream Split_no_separator)

lemma esdbEvents_single:
  assumes "esdbEvents ser contentType TypeOf [event] = Inr [d]"
  shows "Marshal_Data ser (Data event) = Inr (ed_Data d)"
    and "Reason TypeOf event = Inr (ed_EventType d)"
    and "Metadata event = None \<longleftrightarrow> ed_Metadata d = None"
  using assms by (auto split: sum.splits option.splits)

lemma esdbEvents_nth:
  "esdbEvents ser contentType TypeOf events = Inr eventDatas \<Longrightarrow> i < length events \<Longrightarrow>
     esdbEvents ser contentType TypeOf [events ! i] = Inr [eventDatas ! i]"
proof (induction events arbitrary: eventDatas i)
  case Nil
  then show ?case by simp
next
  case (Cons event rest)
  from Cons.prems(1) obtain d ds where
    ds: "esdbEvents ser contentType TypeOf rest = Inr ds" and
    d: "esdbEvents ser contentType TypeOf [event] = Inr [d]" and
    e: "eventDatas = d # ds"
    by (auto split: sum.splits option.splits)
  show ?case
  proof (cases i)
    case 0
    with d e show ?thesis by simp
  next
    case (Suc j)
    with Cons.prems(2) have "j < length rest" by simp
    from Cons.IH [OF ds this] Suc e show ?thesis by simp
  qed
qed

text \<open>
  One record. Take an event, the event data \<open>d\<close> that \<open>esdb_Save\<close> builds for it, and a
  recorded event that carries \<open>d\<close> in the stream of the aggregate at the event number one
  below the Version: \<open>esdb_Next\<close> returns the event, with GlobalVersion 0 and the creation
  date of the record as Timestamp.
\<close>

lemma esdb_Next_recorded:
  assumes enc: "esdbEvents ser contentType TypeOf [event] = Inr [d]"
    and rec: "re_StreamID r = stream (AggregateType event) (AggregateID event)
              \<and> re_EventType r = ed_EventType d \<and> re_Data r = ed_Data d
              \<and> re_UserMetadata r = ed_Metadata d
              \<and> re_EventNumber r + 1 = Version event"
    and ver: "Version event < 2 ^ 64"
    and sep: "streamSeparator \<notin> set (AggregateType event)
              \<and> streamSeparator \<notin> set (AggregateID event)"
    and ty: "Type ser (AggregateType event) (ed_EventType d) = Some f"
    and ud: "Unmarshal_Data ser (ed_Data d) f = Inr (Data event)"
    and um: "case ed_Metadata d of
               None \<Rightarrow> True
             | Some m \<Rightarrow> Unmarshal_Metadata ser m = Inr (Metadata event)"
  shows "esdb_Next ser (Inr r # rest)
           = (Inr (event\<lparr>GlobalVersion := 0, Timestamp := re_CreatedDate r\<rparr>), rest)"
proof -
  have sp: "Split (re_StreamID r) streamSeparator = [AggregateType event, AggregateID event]"
    using rec sep by (simp add: Split_stream_name)
  have md: "(case re_UserMetadata r of None \<Rightarrow> Inr None | Some m \<Rightarrow> Unmarshal_Metadata ser m)
              = Inr (Metadata event)"
  proof (cases "ed_Metadata d")
    case None
    with esdbEvents_single(3) [OF enc] rec show ?thesis by simp
  next
    case (Some m)
    with um rec show ?thesis by simp
  qed
  have v: "(re_EventNumber r + 1) mod 2 ^ 64 = Version event"
    using rec ver by simp
  from rec have e1: "re_EventType r = ed_EventType d" and e2: "re_Data r = ed_Data d"
    by simp_all
  have "esdb_Next ser (Inr r # rest)
          = (Inr \<lparr>AggregateID = AggregateID event, Version = Version event, GlobalVersion = 0,
                   AggregateType = AggregateType event, Timestamp = re_CreatedDate r,
                   Data = Data event, Metadata = Metadata event\<rparr>, rest)"
    using v by (simp add: sp e1 e2 ty ud md)
  then show ?thesis by simp
qed

text \<open>What an accepted batch is, what the service does with an accepted append, and what
  \<open>esdb_Next\<close> returns on the records of a batch.\<close>

lemma esdbEvents_Cons:
  assumes "esdbEvents ser contentType TypeOf (event # rest) = Inr eventDatas"
  shows "\<exists>d ds. eventDatas = d # ds
           \<and> esdbEvents ser contentType TypeOf [event] = Inr [d]
           \<and> esdbEvents ser contentType TypeOf rest = Inr ds"
  using assms by (auto split: sum.splits option.splits)

lemma restores_single:
  assumes enc: "esdbEvents ser contentType TypeOf [event] = Inr [d]"
    and res: "restores ser TypeOf event"
  shows "\<exists>f. Type ser (AggregateType event) (ed_EventType d) = Some f
           \<and> Unmarshal_Data ser (ed_Data d) f = Inr (Data event)"
    and "case ed_Metadata d of
           None \<Rightarrow> True
         | Some m \<Rightarrow> Unmarshal_Metadata ser m = Inr (Metadata event)"
  using assms by (auto simp: restores_def split: sum.splits option.splits)

lemma esdb_nexts_recorded:
  assumes sep: "streamSeparator \<notin> set t \<and> streamSeparator \<notin> set i"
  shows "esdbEvents ser contentType TypeOf events = Inr eventDatas \<Longrightarrow>
     list_all (\<lambda>event. AggregateID event = i \<and> AggregateType event = t) events \<Longrightarrow>
     contiguous (map Version events) \<Longrightarrow>
     (events \<noteq> [] \<longrightarrow> Version (hd events) = Suc n) \<Longrightarrow>
     list_all (\<lambda>event. Version event < 2 ^ 64) events \<Longrightarrow>
     list_all (restores ser TypeOf) events \<Longrightarrow>
     esdb_nexts (length events) ser (map Inr (recorded (stream t i) n now eventDatas) @ tail)
       = (map (\<lambda>event. Inr (event\<lparr>GlobalVersion := 0, Timestamp := now\<rparr>)) events, tail)"
proof (induction events arbitrary: eventDatas n)
  case Nil
  then show ?case by simp
next
  case (Cons event rest)
  from esdbEvents_Cons [OF Cons.prems(1)] obtain d ds where
    e: "eventDatas = d # ds" and
    d: "esdbEvents ser contentType TypeOf [event] = Inr [d]" and
    ds: "esdbEvents ser contentType TypeOf rest = Inr ds"
    by blast
  let ?r = "\<lparr>re_StreamID = stream t i, re_EventType = ed_EventType d, re_EventNumber = n,
             re_CreatedDate = now, re_Data = ed_Data d, re_UserMetadata = ed_Metadata d\<rparr>"
  let ?s = "map Inr (recorded (stream t i) (Suc n) now ds) @ tail"
  from Cons.prems(2) have ag: "AggregateID event = i" "AggregateType event = t"
    and ag': "list_all (\<lambda>event. AggregateID event = i \<and> AggregateType event = t) rest"
    by simp_all
  from Cons.prems(4) have v: "Version event = Suc n" by simp
  from Cons.prems(3) v have c': "contiguous (map Version rest)"
    and h': "rest \<noteq> [] \<longrightarrow> Version (hd rest) = Suc (Suc n)"
    by (cases rest; simp)+
  from Cons.prems(5) have b: "Version event < 2 ^ 64"
    and b': "list_all (\<lambda>event. Version event < 2 ^ 64) rest"
    by simp_all
  from Cons.prems(6) have r: "restores ser TypeOf event"
    and r': "list_all (restores ser TypeOf) rest"
    by simp_all
  from restores_single(1) [OF d r] obtain f where
    ty: "Type ser (AggregateType event) (ed_EventType d) = Some f" and
    ud: "Unmarshal_Data ser (ed_Data d) f = Inr (Data event)"
    by blast
  note um = restores_single(2) [OF d r]
  have rec: "re_StreamID ?r = stream (AggregateType event) (AggregateID event)
              \<and> re_EventType ?r = ed_EventType d \<and> re_Data ?r = ed_Data d
              \<and> re_UserMetadata ?r = ed_Metadata d
              \<and> re_EventNumber ?r + 1 = Version event"
    by (simp add: ag v)
  have sep': "streamSeparator \<notin> set (AggregateType event)
              \<and> streamSeparator \<notin> set (AggregateID event)"
    using sep by (simp add: ag)
  have "esdb_Next ser (Inr ?r # ?s)
          = (Inr (event\<lparr>GlobalVersion := 0, Timestamp := re_CreatedDate ?r\<rparr>), ?s)"
    by (rule esdb_Next_recorded [OF d rec b sep' ty ud um])
  then have first: "esdb_Next ser (Inr ?r # ?s)
          = (Inr (event\<lparr>GlobalVersion := 0, Timestamp := now\<rparr>), ?s)"
    by simp
  have others: "esdb_nexts (length rest) ser ?s
       = (map (\<lambda>event. Inr (event\<lparr>GlobalVersion := 0, Timestamp := now\<rparr>)) rest, tail)"
    by (rule Cons.IH [OF ds ag' c' h' b' r'])
  have "esdb_nexts (Suc (length rest)) ser (Inr ?r # ?s)
          = (Inr (event\<lparr>GlobalVersion := 0, Timestamp := now\<rparr>)
             # map (\<lambda>event. Inr (event\<lparr>GlobalVersion := 0, Timestamp := now\<rparr>)) rest, tail)"
    by (simp only: esdb_nexts.simps first others prod.case)
  then show ?case
    by (simp only: e recorded.simps list.map append_Cons length_Cons)
qed

lemma service_AppendToStream_accepted:
  assumes "service_AppendToStream svc streamName (expectedRevision v) eventDatas = (Inr wr, svc')"
    and "1 \<le> v"
  shows "\<exists>current. length current = v - 1
           \<and> svc_streams svc' streamName
               = Some (current @ recorded streamName (v - 1) (svc_now svc) eventDatas)"
proof -
  let ?current = "case svc_streams svc streamName of None \<Rightarrow> [] | Some es \<Rightarrow> es"
  from assms(1) have m: "revision_matches (expectedRevision v) (svc_streams svc streamName)"
    and s: "svc' = svc\<lparr>svc_streams := (svc_streams svc)
                    (streamName \<mapsto>
                       ?current @ recorded streamName (length ?current) (svc_now svc) eventDatas),
                svc_position := svc_position svc + length eventDatas\<rparr>"
    by (auto simp: service_AppendToStream_def Let_def split: if_splits)
  from m assms(2) have l: "length ?current = v - 1"
    by (auto simp: revision_matches_def expectedRevision_def split: if_splits option.splits)
  have "svc_streams svc' streamName
          = Some (?current @ recorded streamName (length ?current) (svc_now svc) eventDatas)"
    by (simp add: s)
  with l show ?thesis by (intro exI [of _ ?current]) simp
qed

lemma ValidateEventsNoVersionCheck_accepted:
  assumes "ValidateEventsNoVersionCheck (AggregateID first) (first # rest) = None"
  shows "list_all (\<lambda>event. AggregateID event = AggregateID first
                        \<and> AggregateType event = AggregateType first) (first # rest)"
    and "contiguous (map Version (first # rest))"
  using assms
  by (auto simp: ValidateEventsNoVersionCheck_def same_aggregate_def split: if_splits)

lemma esdb_Save_validated:
  assumes "esdb_Save ser contentType TypeOf AppendToStream c (first # rest) = (None, events', c')"
  shows "ValidateEventsNoVersionCheck (AggregateID first) (first # rest) = None"
  using assms
  by (auto simp: esdb_Save_def Let_def split: option.splits sum.splits prod.splits)

text \<open>The definitions that evaluating the examples of the backend unfolds.\<close>

lemmas esdb_example_defs =
  esdb_Save_def person_serializer_def TypeOf_pointer_def service_AppendToStream_def
  person_event_def tagged_born_def ValidateEventsNoVersionCheck_def same_aggregate_def Reason_def
  Let_def recorded_born_def recorded_tagged_def streamSeparator_def stream_def
  expectedRevision_def revision_matches_def example_service_def recorded_service_def

text \<open>
  Claim C2, as amended. Take a batch whose first Version is at least 1 and which
  \<open>esdb_Save\<close> commits to the service. The expected revision that \<open>esdb_Save\<close> asks for
  places the records of the batch at the event numbers one below the Versions, so: when
  neither the aggregate type nor the identifier contains the stream separator, the
  Versions fit in 64 bits, and for every event of the batch the type and reason are
  registered and the serializer's \<open>Unmarshal\<close> restores the data and the metadata from
  what its \<open>Marshal\<close> produced, \<open>esdb_Get\<close> after the Version before the batch succeeds,
  and the calls of \<open>esdb_Next\<close> on the iterator return the events of the batch in order
  and exhaust the stream, each event with its AggregateID, Version, AggregateType, Data
  and Metadata unchanged; the GlobalVersion returned is 0 and the Timestamp is the date at
  which the service recorded the event.
\<close>

theorem esdb_Next_after_Save:
  assumes saved: "esdb_Save ser contentType TypeOf service_AppendToStream svc (first # rest)
                    = (None, events', svc')"
    and ver: "1 \<le> Version first"
    and bound: "list_all (\<lambda>event. Version event < 2 ^ 64) (first # rest)"
    and sep: "streamSeparator \<notin> set (AggregateType first)
              \<and> streamSeparator \<notin> set (AggregateID first)"
    and res: "list_all (restores ser TypeOf) (first # rest)"
  shows "\<exists>s. esdb_Get service_ReadStream None svc' (AggregateID first) (AggregateType first)
               (Version first - 1) = Inr s
           \<and> esdb_nexts (length (first # rest)) ser s
               = (map (\<lambda>event. Inr (event\<lparr>GlobalVersion := 0, Timestamp := svc_now svc\<rparr>))
                    (first # rest), [])"
proof -
  let ?name = "stream (AggregateType first) (AggregateID first)"
  from esdb_Save_accepted [OF saved] obtain eventDatas wr where
    enc: "esdbEvents ser contentType TypeOf (first # rest) = Inr eventDatas" and
    app: "service_AppendToStream svc ?name (expectedRevision (Version first)) eventDatas
            = (Inr wr, svc')"
    by blast
  from service_AppendToStream_accepted [OF app ver] obtain current where
    len: "length current = Version first - 1" and
    str: "svc_streams svc' ?name
            = Some (current @ recorded ?name (Version first - 1) (svc_now svc) eventDatas)"
    by blast
  let ?s = "map Inr (recorded ?name (Version first - 1) (svc_now svc) eventDatas)"
  from bound have "Version first < 2 ^ 64" by simp
  then have "Version first - 1 < 2 ^ 64" by (rule less_imp_diff_less)
  then have m: "(Version first - 1) mod 2 ^ 64 = Version first - 1" by (rule mod_less)
  have get: "esdb_Get service_ReadStream None svc' (AggregateID first) (AggregateType first)
               (Version first - 1) = Inr ?s"
    using m by (simp add: esdb_Get_def service_ReadStream_def Let_def str len)
  note val = ValidateEventsNoVersionCheck_accepted [OF esdb_Save_validated [OF saved]]
  have h: "first # rest \<noteq> [] \<longrightarrow> Version (hd (first # rest)) = Suc (Version first - 1)"
    using ver by simp
  have "esdb_nexts (length (first # rest)) ser (?s @ [])
          = (map (\<lambda>event. Inr (event\<lparr>GlobalVersion := 0, Timestamp := svc_now svc\<rparr>))
               (first # rest), [])"
    by (rule esdb_nexts_recorded [OF sep enc val(1) val(2) h bound res])
  then have "esdb_nexts (length (first # rest)) ser ?s
          = (map (\<lambda>event. Inr (event\<lparr>GlobalVersion := 0, Timestamp := svc_now svc\<rparr>))
               (first # rest), [])"
    by (simp only: append_Nil2)
  with get show ?thesis by blast
qed

theorem esdb_Next_after_Save_witness:
  "esdb_Save person_serializer ContentTypeJson TypeOf_pointer service_AppendToStream
      example_service [tagged_born]
     = (None, [tagged_born\<lparr>GlobalVersion := 7\<rparr>], recorded_service)
   \<and> (\<exists>s. esdb_Get service_ReadStream None recorded_service ''123'' ''Person'' 0 = Inr s
          \<and> esdb_nexts 1 person_serializer s
              = ([Inr (tagged_born\<lparr>GlobalVersion := 0, Timestamp := 2000\<rparr>)], []))
   \<and> fst (esdb_Save person_serializer ContentTypeJson TypeOf_pointer service_AppendToStream
             recorded_service [person_event 2 AgedOneYear, person_event 3 AgedOneYear]) = None
   \<and> (\<exists>s. esdb_Get service_ReadStream None
             (snd (snd (esdb_Save person_serializer ContentTypeJson TypeOf_pointer
                          service_AppendToStream recorded_service
                          [person_event 2 AgedOneYear, person_event 3 AgedOneYear])))
             ''123'' ''Person'' 1 = Inr s
          \<and> esdb_nexts 2 person_serializer s
              = ([Inr ((person_event 2 AgedOneYear)\<lparr>GlobalVersion := 0, Timestamp := 2000\<rparr>),
                  Inr ((person_event 3 AgedOneYear)\<lparr>GlobalVersion := 0, Timestamp := 2000\<rparr>)],
                 []))"
proof -
  let ?X = "esdb_Save person_serializer ContentTypeJson TypeOf_pointer service_AppendToStream
              recorded_service [person_event 2 AgedOneYear, person_event 3 AgedOneYear]"
  have saved1: "esdb_Save person_serializer ContentTypeJson TypeOf_pointer service_AppendToStream
      example_service [tagged_born]
     = (None, [tagged_born\<lparr>GlobalVersion := 7\<rparr>], recorded_service)"
    by (simp add: esdb_example_defs)
  have ver1: "1 \<le> Version tagged_born"
    by (simp add: tagged_born_def person_event_def)
  have bound1: "list_all (\<lambda>event. Version event < 2 ^ 64) [tagged_born]"
    by (simp add: tagged_born_def person_event_def)
  have sep1: "streamSeparator \<notin> set (AggregateType tagged_born)
              \<and> streamSeparator \<notin> set (AggregateID tagged_born)"
    by (simp add: tagged_born_def person_event_def streamSeparator_def)
  have res1: "list_all (restores person_serializer TypeOf_pointer) [tagged_born]"
    by (simp add: restores_def tagged_born_def person_event_def person_serializer_def
          TypeOf_pointer_def Reason_def)
  have now: "svc_now example_service = 2000" "svc_now recorded_service = 2000"
    by (simp_all add: example_service_def recorded_service_def)
  have ag1: "AggregateID tagged_born = ''123''" "AggregateType tagged_born = ''Person''"
    "Version tagged_born - 1 = 0"
    by (simp_all add: tagged_born_def person_event_def)
  have l1: "length [tagged_born] = 1"
    by simp
  from esdb_Next_after_Save [OF saved1 ver1 bound1 sep1 res1]
  have a: "\<exists>s. esdb_Get service_ReadStream None recorded_service ''123'' ''Person'' 0 = Inr s
          \<and> esdb_nexts 1 person_serializer s
              = ([Inr (tagged_born\<lparr>GlobalVersion := 0, Timestamp := 2000\<rparr>)], [])"
    by (simp only: now ag1 l1 list.map)
  have f2: "fst ?X = None"
    by (simp add: esdb_example_defs)
  then have saved2: "?X = (None, fst (snd ?X), snd (snd ?X))"
    by (simp add: prod_eq_iff)
  have ver2: "1 \<le> Version (person_event 2 AgedOneYear)"
    by (simp add: person_event_def)
  have bound2: "list_all (\<lambda>event. Version event < 2 ^ 64)
                  [person_event 2 AgedOneYear, person_event 3 AgedOneYear]"
    by (simp add: person_event_def)
  have sep2: "streamSeparator \<notin> set (AggregateType (person_event 2 AgedOneYear))
              \<and> streamSeparator \<notin> set (AggregateID (person_event 2 AgedOneYear))"
    by (simp add: person_event_def streamSeparator_def)
  have res2: "list_all (restores person_serializer TypeOf_pointer)
                [person_event 2 AgedOneYear, person_event 3 AgedOneYear]"
    by (simp add: restores_def person_event_def person_serializer_def TypeOf_pointer_def
          Reason_def)
  have ag2: "AggregateID (person_event 2 AgedOneYear) = ''123''"
    "AggregateType (person_event 2 AgedOneYear) = ''Person''"
    "Version (person_event 2 AgedOneYear) - 1 = 1"
    by (simp_all add: person_event_def)
  have l2: "length [person_event 2 AgedOneYear, person_event 3 AgedOneYear] = 2"
    by simp
  from esdb_Next_after_Save [OF saved2 ver2 bound2 sep2 res2]
  have b: "\<exists>s. esdb_Get service_ReadStream None (snd (snd ?X)) ''123'' ''Person'' 1 = Inr s
          \<and> esdb_nexts 2 person_serializer s
              = ([Inr ((person_event 2 AgedOneYear)\<lparr>GlobalVersion := 0, Timestamp := 2000\<rparr>),
                  Inr ((person_event 3 AgedOneYear)\<lparr>GlobalVersion := 0, Timestamp := 2000\<rparr>)],
                 [])"
    by (simp only: now ag2 l2 list.map)
  from saved1 a f2 b show ?thesis by (intro conjI)
qed

text \<open>
  Claim C2 as stated fails. The event written with Timestamp 1000, to which \<open>esdb_Save\<close>
  assigned GlobalVersion 7, is recorded by the service at 2000 and read back with
  GlobalVersion 0 and Timestamp 2000.
\<close>

theorem esdb_Next_not_lossless:
  "fst (esdb_Save person_serializer ContentTypeJson TypeOf_pointer service_AppendToStream
          example_service [person_event 1 (Born ''Alice'')]) = None
   \<and> fst (snd (esdb_Save person_serializer ContentTypeJson TypeOf_pointer service_AppendToStream
                 example_service [person_event 1 (Born ''Alice'')]))
       = [(person_event 1 (Born ''Alice''))\<lparr>GlobalVersion := 7\<rparr>]
   \<and> esdb_Get service_ReadStream None
        (snd (snd (esdb_Save person_serializer ContentTypeJson TypeOf_pointer
                     service_AppendToStream example_service [person_event 1 (Born ''Alice'')])))
        ''123'' ''Person'' 0
       = Inr [Inr recorded_born]
   \<and> esdb_Next person_serializer [Inr recorded_born]
       = (Inr ((person_event 1 (Born ''Alice''))\<lparr>GlobalVersion := 0, Timestamp := 2000\<rparr>), [])
   \<and> GlobalVersion ((person_event 1 (Born ''Alice''))\<lparr>GlobalVersion := 0, Timestamp := 2000\<rparr>)
       \<noteq> GlobalVersion ((person_event 1 (Born ''Alice''))\<lparr>GlobalVersion := 7\<rparr>)
   \<and> Timestamp ((person_event 1 (Born ''Alice''))\<lparr>GlobalVersion := 0, Timestamp := 2000\<rparr>)
       \<noteq> Timestamp ((person_event 1 (Born ''Alice''))\<lparr>GlobalVersion := 7\<rparr>)"
  by (simp add: esdb_example_defs esdb_Get_def service_ReadStream_def)

text \<open>An event written with Version 0 is appended with any expected revision, and is
  read back with the Version of its place in the stream, here 1.\<close>

lemma esdb_Next_Version_zero:
  "fst (esdb_Save person_serializer ContentTypeJson TypeOf_pointer service_AppendToStream
          example_service [person_event 0 (Born ''Alice'')]) = None
   \<and> esdb_Get service_ReadStream None
        (snd (snd (esdb_Save person_serializer ContentTypeJson TypeOf_pointer
                     service_AppendToStream example_service [person_event 0 (Born ''Alice'')])))
        ''123'' ''Person'' 0
       = Inr [Inr recorded_born]
   \<and> esdb_Next person_serializer [Inr recorded_born]
       = (Inr ((person_event 1 (Born ''Alice''))\<lparr>Timestamp := 2000\<rparr>), [])"
  by (simp add: esdb_example_defs esdb_Get_def service_ReadStream_def)

text \<open>With the separator in the identifier (\<^verbatim>\<open>123-456\<close>), the identifier read back is
  its first part only.\<close>

lemma esdb_Next_separator_in_identifier:
  "esdb_Next person_serializer
     [Inr (recorded_born\<lparr>re_StreamID := ''Person-123-456''\<rparr>)]
   = (Inr ((person_event 1 (Born ''Alice''))\<lparr>Timestamp := 2000\<rparr>), [])"
  by (simp add: person_serializer_def person_event_def recorded_born_def streamSeparator_def)

section \<open>Unregistered events on the read paths\<close>

text \<open>Reading a stream or a set of rows gives what reading it without the unregistered
  events gives.\<close>

lemma Split_nonempty: "Split s sep \<noteq> []"
  by (induction s) (auto split: list.splits)

lemma esdb_Next_registered_only:
  "fst (esdb_Next ser s) = fst (esdb_Next ser (filter (\<lambda>x. \<not> esdb_unregistered ser x) s))"
proof (induction ser s rule: esdb_Next.induct)
  case (5 ser eventESDB rest)
  show ?case
  proof (cases "Split (re_StreamID eventESDB) streamSeparator")
    case Nil
    then show ?thesis by (simp add: Split_nonempty)
  next
    case (Cons stream0 stream_tail)
    show ?thesis
    proof (cases "Type ser stream0 (re_EventType eventESDB)")
      case None
      with Cons 5 show ?thesis by (simp add: esdb_unregistered_def)
    next
      case (Some f)
      with Cons show ?thesis
        by (simp add: esdb_unregistered_def split: sum.splits list.splits option.splits)
    qed
  qed
qed (simp_all add: esdb_unregistered_def)

lemma eventsFromRows_registered_only:
  "eventsFromRows ser Parse rows_Err rows events
     = eventsFromRows ser Parse rows_Err (filter (\<lambda>x. \<not> sql_unregistered ser Parse x) rows) events"
proof (induction ser Parse rows_Err rows events rule: eventsFromRows.induct)
  case (3 ser Parse rows_Err row rows events)
  show ?case
  proof (cases "Parse (row_timestamp row)")
    case (Inl err)
    then show ?thesis by (simp add: sql_unregistered_def)
  next
    case (Inr t)
    show ?thesis
    proof (cases "Type ser (row_type row) (row_reason row)")
      case None
      with Inr 3 show ?thesis by (simp add: sql_unregistered_def)
    next
      case (Some f)
      with Inr 3 show ?thesis
        by (simp add: sql_unregistered_def split: sum.splits)
    qed
  qed
qed (simp_all add: sql_unregistered_def)

lemma bolt_move_cursor:
  "bolt_move i = Inr (kv, i') \<Longrightarrow> \<exists>rest. bolt_cursor i' = Some (kv # rest)"
  by (auto simp: bolt_move_def split: option.splits list.splits)

text \<open>
  Claim C7. On each read path, a stored event whose type and reason the serializer does
  not know (\<open>Type\<close> returns \<open>None\<close>) is skipped: \<open>esdb_Next\<close> on a stream that starts with
  such an event is \<open>esdb_Next\<close> on the rest of the stream; \<open>bbolt_Next\<close>, having moved the
  cursor to such an event, is \<open>bbolt_Next\<close> from that cursor position, which moves on to
  the following pair; \<open>eventsFromRows\<close> on rows that start with such an event is
  \<open>eventsFromRows\<close> on the following rows with the same events collected. The event is
  neither returned nor turned into an error.
\<close>

theorem unregistered_event_skipped:
  "(Split (re_StreamID r) streamSeparator = stream0 # stream_tail
      \<and> Type ser stream0 (re_EventType r) = None
      \<longrightarrow> esdb_Next ser (Inr r # rest) = esdb_Next ser rest)
   \<and> (bolt_move i = Inr ((k, obj), i') \<and> Unmarshal_boltEvent ser obj = Inr bEvent
      \<and> Type ser (be_AggregateType bEvent) (be_Reason bEvent) = None
      \<longrightarrow> bbolt_Next ser i = bbolt_Next ser i')
   \<and> (Parse (row_timestamp row) = Inr t \<and> Type ser (row_type row) (row_reason row) = None
      \<longrightarrow> eventsFromRows ser Parse rows_Err (Inr row # rows) events
            = eventsFromRows ser Parse rows_Err rows events)"
proof (intro conjI impI)
  assume "Split (re_StreamID r) streamSeparator = stream0 # stream_tail
          \<and> Type ser stream0 (re_EventType r) = None"
  then show "esdb_Next ser (Inr r # rest) = esdb_Next ser rest" by simp
next
  assume "bolt_move i = Inr ((k, obj), i') \<and> Unmarshal_boltEvent ser obj = Inr bEvent
          \<and> Type ser (be_AggregateType bEvent) (be_Reason bEvent) = None"
  then show "bbolt_Next ser i = bbolt_Next ser i'"
    by (subst bbolt_Next.simps) simp
next
  assume "Parse (row_timestamp row) = Inr t \<and> Type ser (row_type row) (row_reason row) = None"
  then show "eventsFromRows ser Parse rows_Err (Inr row # rows) events
               = eventsFromRows ser Parse rows_Err rows events" by simp
qed


theorem unregistered_event_skipped_witness:
  "Type person_serializer ''Person'' ''Moved'' = None
   \<and> esdb_Next person_serializer [Inr recorded_moved, Inr recorded_born]
       = esdb_Next person_serializer [Inr recorded_born]
   \<and> bbolt_Next person_serializer bolt_example
       = bbolt_Next person_serializer
           (bolt_example\<lparr>bolt_cursor := Some [(1, ''moved''), (2, ''born'')]\<rparr>)
   \<and> eventsFromRows person_serializer example_Parse None [Inr row_moved, Inr row_born] []
       = eventsFromRows person_serializer example_Parse None [Inr row_born] []"
proof -
  have ty: "Type person_serializer ''Person'' ''Moved'' = None"
    by (simp add: person_serializer_def)
  have sp: "Split (re_StreamID recorded_moved) streamSeparator = [''Person'', ''123'']"
    by (simp add: recorded_moved_def streamSeparator_def)
  have mv: "bolt_move bolt_example
              = Inr ((1, ''moved''),
                     bolt_example\<lparr>bolt_cursor := Some [(1, ''moved''), (2, ''born'')]\<rparr>)"
    by (simp add: bolt_move_def bolt_example_def)
  have ub: "Unmarshal_boltEvent person_serializer ''moved''
              = Inr \<lparr>be_AggregateID = ''123'', be_Version = 1, be_GlobalVersion = 1,
                     be_Reason = ''Moved'', be_AggregateType = ''Person'', be_Timestamp = 1000,
                     be_Data = ''Alice'', be_Metadata = None\<rparr>"
    by (simp add: person_serializer_def)
  have pt: "example_Parse (row_timestamp row_moved) = Inr 1000"
    by (simp add: example_Parse_def row_moved_def)
  from unregistered_event_skipped [where ser = person_serializer and r = recorded_moved
      and ?stream0.0 = "''Person''" and stream_tail = "[''123'']" and rest = "[Inr recorded_born]"
      and i = bolt_example and k = 1 and obj = "''moved''"
      and i' = "bolt_example\<lparr>bolt_cursor := Some [(1, ''moved''), (2, ''born'')]\<rparr>"
      and bEvent = "\<lparr>be_AggregateID = ''123'', be_Version = 1, be_GlobalVersion = 1,
                     be_Reason = ''Moved'', be_AggregateType = ''Person'', be_Timestamp = 1000,
                     be_Data = ''Alice'', be_Metadata = None\<rparr>"
      and Parse = example_Parse and row = row_moved and t = 1000 and rows_Err = None
      and rows = "[Inr row_born]" and events = "[]"]
  show ?thesis
    using ty sp mv ub pt by (simp add: recorded_moved_def row_moved_def)
qed

lemma read_paths_example:
  "esdb_Next person_serializer [Inr recorded_moved, Inr recorded_born]
     = (Inr ((person_event 1 (Born ''Alice''))\<lparr>Timestamp := 2000\<rparr>), [])
   \<and> fst (bbolt_Next person_serializer bolt_example)
     = Inr ((person_event 2 (Born ''Alice''))\<lparr>GlobalVersion := 2\<rparr>)
   \<and> eventsFromRows person_serializer example_Parse None [Inr row_moved, Inr row_born] []
     = Inr [(person_event 2 (Born ''Alice''))\<lparr>GlobalVersion := 2\<rparr>]"
proof (intro conjI)
  show "esdb_Next person_serializer [Inr recorded_moved, Inr recorded_born]
     = (Inr ((person_event 1 (Born ''Alice''))\<lparr>Timestamp := 2000\<rparr>), [])"
    by (simp add: person_serializer_def person_event_def recorded_born_def recorded_moved_def
          streamSeparator_def)
  show "fst (bbolt_Next person_serializer bolt_example)
     = Inr ((person_event 2 (Born ''Alice''))\<lparr>GlobalVersion := 2\<rparr>)"
    by (subst bbolt_Next.simps, simp add: bolt_move_def bolt_example_def person_serializer_def,
        subst bbolt_Next.simps, simp add: bolt_move_def person_serializer_def person_event_def)
  show "eventsFromRows person_serializer example_Parse None [Inr row_moved, Inr row_born] []
     = Inr [(person_event 2 (Born ''Alice''))\<lparr>GlobalVersion := 2\<rparr>]"
    by (simp add: person_serializer_def person_event_def row_moved_def row_born_def
          example_Parse_def)
qed

end
